theory Spec2Isabelle
  imports Main "HOL-Library.Word"
begin

section \<open>pmail: composing and sending an email (src/src/mail_client.py)\<close>

text \<open>
  A shallow embedding of \<^verbatim>\<open>MailClient.send_email\<close> and of the three email-scheduling
  methods of \<^verbatim>\<open>EmailScheduler\<close> (src/src/scheduler.py).

  Python strings are lists of characters with code points below 256; file contents are
  lists of bytes. Everything the method reads from outside its arguments is a field of
  the record \<open>world\<close>: the file system, the table of \<^verbatim>\<open>mimetypes.guess_type\<close>, the
  behaviour of the SMTP server and the wall clock. Everything it does to the outside is
  an \<open>event\<close> of the trace it returns: the error lines it logs and the calls it makes on
  the SMTP connection. Lines logged at the levels info and debug are left out.
\<close>

subsection \<open>Values of the Python program\<close>

type_synonym bytes = "8 word list"

text \<open>\<^verbatim>\<open>Union[str, List[str]]\<close>: one string or a list of strings.\<close>

datatype str_or_list = Str string | Lst "string list"

text \<open>The exceptions that occur. \<open>KeyboardInterrupt\<close> stands for the classes that derive
  from \<^verbatim>\<open>BaseException\<close> but not from \<^verbatim>\<open>Exception\<close>; \<^verbatim>\<open>smtplib.SMTPException\<close> derives
  from \<^verbatim>\<open>OSError\<close>. The string is the text of \<^verbatim>\<open>str(e)\<close>.\<close>

datatype exn = ValueError string | OSError string | SMTPException string | KeyboardInterrupt

fun is_SMTPException :: "exn \<Rightarrow> bool" where
  "is_SMTPException (SMTPException m) = True"
| "is_SMTPException e = False"

fun is_Exception :: "exn \<Rightarrow> bool" where
  "is_Exception KeyboardInterrupt = False"
| "is_Exception e = True"

fun str_exn :: "exn \<Rightarrow> string" where
  "str_exn (ValueError m) = m"
| "str_exn (OSError m) = m"
| "str_exn (SMTPException m) = m"
| "str_exn KeyboardInterrupt = []"

text \<open>The arguments of \<^verbatim>\<open>send_email\<close> (lines 57-67), with \<^verbatim>\<open>None\<close> as \<open>None\<close>.\<close>

record send_request =
  to :: str_or_list
  subject :: string
  body :: "string option"
  body_html :: "string option"
  from_address :: "string option"
  cc :: "str_or_list option"
  bcc :: "str_or_list option"
  attachments :: "str_or_list option"

text \<open>\<^verbatim>\<open>EmailConfig\<close> (src/config/email_config.py).\<close>

record EmailConfig =
  smtp_server :: string
  smtp_port :: int
  gmail_address :: string
  gmail_password :: string
  default_sender :: string
  use_tls :: bool

subsection \<open>The MIME tree\<close>

text \<open>
  The classes of \<^verbatim>\<open>email.mime\<close> are constructors. The headers these classes write
  themselves (Content-Type, MIME-Version, and the transfer encoding of a text part) are
  given by the constructor and its arguments; the header list of a \<open>MIMEBase\<close> part and
  of a \<open>message\<close> holds the headers that send_email adds, in the order it adds them.
  \<open>Base64 bs\<close> is the payload that \<^verbatim>\<open>encoders.encode_base64\<close> leaves in a part whose
  payload was the bytes \<open>bs\<close>.
\<close>

datatype payload = Raw bytes | Base64 bytes

datatype mime =
    MIMEText string string
  | MIMEMultipart string "mime list"
  | MIMEBase string string payload "(string \<times> string) list"

record message =
  root :: mime
  headers :: "(string \<times> string) list"

subsection \<open>The world outside\<close>

text \<open>What a path names: nothing, something that is not a regular file, or a regular
  file, whose reading either raises \<^verbatim>\<open>OSError\<close> with a text or gives its bytes. The file
  system and the table of guessed types are asked with the text of the path as the
  caller gave it, and the error lines show that text; what \<^verbatim>\<open>Path\<close> does to the text
  (line 113) is modelled where the method reads it off, in the file name of line 174.\<close>

datatype fs_entry = Missing | NotRegular | Regular "string + bytes"

text \<open>What the server does at each call on the connection: \<open>None\<close> when the call
  returns, \<open>Some e\<close> when it raises \<open>e\<close>. \<open>on_quit\<close> is the exit of the \<^verbatim>\<open>with\<close> block.\<close>

record smtp_behaviour =
  on_connect :: "string \<Rightarrow> int \<Rightarrow> exn option"
  on_starttls :: "exn option"
  on_login :: "string \<Rightarrow> string \<Rightarrow> exn option"
  on_send_message :: "message \<Rightarrow> string list \<Rightarrow> exn option"
  on_quit :: "exn option"

record world =
  fs :: "string \<Rightarrow> fs_entry"
  guess_type :: "string \<Rightarrow> string option \<times> string option"
  smtp :: smtp_behaviour
  clock :: nat

datatype event =
    LogError string
  | Connect string int
  | StartTLS
  | Login string string
  | SendMessage message "string list"
  | Quit

fun is_network :: "event \<Rightarrow> bool" where
  "is_network (LogError m) = False"
| "is_network e = True"

text \<open>How a block of statements ends: it falls through with a value, it executes
  \<^verbatim>\<open>return b\<close>, or it raises.\<close>

datatype 'a outcome = Continue 'a | Return bool | Raise exn

text \<open>What the caller of \<^verbatim>\<open>send_email\<close> observes.\<close>

datatype result = Returned bool | Propagated exn

subsection \<open>Truthiness and normalisation (lines 85, 90, 99-109)\<close>

fun truthy :: "string option \<Rightarrow> bool" where
  "truthy None = False"
| "truthy (Some s) = (s \<noteq> [])"

fun truthy_sl :: "str_or_list option \<Rightarrow> bool" where
  "truthy_sl None = False"
| "truthy_sl (Some (Str s)) = (s \<noteq> [])"
| "truthy_sl (Some (Lst l)) = (l \<noteq> [])"

text \<open>\<^verbatim>\<open>if isinstance(x, str): x = [x]\<close>\<close>

fun as_list :: "str_or_list \<Rightarrow> string list" where
  "as_list (Str s) = [s]"
| "as_list (Lst l) = l"

text \<open>The list behind \<^verbatim>\<open>cc\<close>, \<^verbatim>\<open>bcc\<close> or \<^verbatim>\<open>attachments\<close> wherever the source guards its
  use by the truth value of the argument.\<close>

definition opt_list :: "str_or_list option \<Rightarrow> string list" where
  "opt_list x = (case x of None \<Rightarrow> [] | Some v \<Rightarrow> if truthy_sl x then as_list v else [])"

subsection \<open>The plain-text fallback (lines 90-97)\<close>

text \<open>\<^verbatim>\<open>re.sub(r'<[^>]+>', '', s)\<close>: at a \<^verbatim>\<open><\<close> the pattern takes the longest run of
  characters other than \<^verbatim>\<open>>\<close>, which must not be empty and must be followed by a
  \<^verbatim>\<open>>\<close>; the match is removed and the scan goes on behind it.\<close>

function re_sub_tags :: "string \<Rightarrow> string" where
  "re_sub_tags [] = []"
| "re_sub_tags (c # cs) =
     (if c = CHR ''<'' \<and> takeWhile (\<lambda>x. x \<noteq> CHR ''>'') cs \<noteq> []
         \<and> dropWhile (\<lambda>x. x \<noteq> CHR ''>'') cs \<noteq> []
      then re_sub_tags (tl (dropWhile (\<lambda>x. x \<noteq> CHR ''>'') cs))
      else c # re_sub_tags cs)"
  by pat_completeness auto
termination
proof (relation "measure length")
  fix c :: char and cs :: string
  have "length (dropWhile (\<lambda>x. x \<noteq> CHR ''>'') cs) \<le> length cs"
    by (rule length_dropWhile_le)
  then show "(tl (dropWhile (\<lambda>x. x \<noteq> CHR ''>'') cs), c # cs) \<in> measure length"
    by simp
qed simp_all

text \<open>\<^verbatim>\<open>str.isspace\<close> on the code points below 256, and \<^verbatim>\<open>str.strip()\<close>.\<close>

definition is_space :: "char \<Rightarrow> bool" where
  "is_space c = (let n = (of_char c :: nat) in
     (9 \<le> n \<and> n \<le> 13) \<or> (28 \<le> n \<and> n \<le> 32) \<or> n = 133 \<or> n = 160)"

definition strip :: "string \<Rightarrow> string" where
  "strip s = rev (dropWhile is_space (rev (dropWhile is_space s)))"

definition PLACEHOLDER :: string where
  "PLACEHOLDER =
     ''This email contains HTML content. Please view in an HTML-compatible email client.''"

definition html_fallback :: "string \<Rightarrow> string" where
  "html_fallback html =
     (let b = strip (re_sub_tags html) in if b = [] then PLACEHOLDER else b)"

text \<open>Lines 85-97: the plain body the rest of the method works with.\<close>

definition resolve_body :: "send_request \<Rightarrow> string outcome \<times> event list" where
  "resolve_body r =
     (if \<not> truthy (body r) \<and> \<not> truthy (body_html r)
      then (Raise (ValueError ''Either body (plain text) or body_html must be provided''),
            [LogError ''Either body or body_html must be provided''])
      else if \<not> truthy (body r)
      then (case body_html r of Some h \<Rightarrow> (Continue (html_fallback h), [])
            | None \<Rightarrow> (Continue [], []))
      else (case body r of Some b \<Rightarrow> (Continue b, []) | None \<Rightarrow> (Continue [], [])))"

subsection \<open>Attachments (lines 107-122 and 154-182)\<close>

text \<open>The first loop: each path must exist and be a regular file, in the order given;
  the first that is not ends the method with \<^verbatim>\<open>return False\<close> after one error line.\<close>

fun validate_attachments ::
  "(string \<Rightarrow> fs_entry) \<Rightarrow> string list \<Rightarrow> string list outcome \<times> event list" where
  "validate_attachments f [] = (Continue [], [])"
| "validate_attachments f (p # ps) =
     (case f p of
        Missing \<Rightarrow> (Return False, [LogError (''Attachment file not found: '' @ p)])
      | NotRegular \<Rightarrow> (Return False, [LogError (''Attachment is not a file: '' @ p)])
      | Regular d \<Rightarrow>
          (case validate_attachments f ps of
             (Continue qs, tr) \<Rightarrow> (Continue (p # qs), tr)
           | other \<Rightarrow> other))"

text \<open>Lines 107-122.\<close>

definition resolve_attachments ::
  "world \<Rightarrow> send_request \<Rightarrow> string list outcome \<times> event list" where
  "resolve_attachments w r =
     (if truthy_sl (attachments r)
      then (case attachments r of Some a \<Rightarrow> validate_attachments (fs w) (as_list a)
            | None \<Rightarrow> (Continue [], []))
      else (Continue [], []))"

text \<open>\<^verbatim>\<open>maintype, subtype = ctype.split('/', 1)\<close>: without a slash the unpacking raises.\<close>

definition split_ctype :: "string \<Rightarrow> (string \<times> string) option" where
  "split_ctype c =
     (if CHR ''/'' \<in> set c
      then Some (takeWhile (\<lambda>x. x \<noteq> CHR ''/'') c, tl (dropWhile (\<lambda>x. x \<noteq> CHR ''/'') c))
      else None)"

text \<open>\<^verbatim>\<open>str.split(sep)\<close> and \<^verbatim>\<open>Path(p).name\<close> on a POSIX system: the last component of
  the path, where empty components and single dots do not count.\<close>

fun split_on :: "char \<Rightarrow> string \<Rightarrow> string list" where
  "split_on sep [] = [[]]"
| "split_on sep (c # cs) =
     (if c = sep then [] # split_on sep cs
      else (case split_on sep cs of [] \<Rightarrow> [[c]] | x # xs \<Rightarrow> (c # x) # xs))"

definition path_name :: "string \<Rightarrow> string" where
  "path_name p =
     (case filter (\<lambda>x. x \<noteq> [] \<and> x \<noteq> ''.'') (split_on CHR ''/'' p) of
        [] \<Rightarrow> []
      | x # xs \<Rightarrow> last (x # xs))"

text \<open>Lines 157-159.\<close>

definition content_type :: "world \<Rightarrow> string \<Rightarrow> string" where
  "content_type w p =
     (case guess_type w p of
        (None, encoding) \<Rightarrow> ''application/octet-stream''
      | (Some ctype, None) \<Rightarrow> ctype
      | (Some ctype, Some encoding) \<Rightarrow> ''application/octet-stream'')"

text \<open>Lines 157-175, the body of the inner \<^verbatim>\<open>try\<close> for one file.\<close>

definition make_attachment :: "world \<Rightarrow> string \<Rightarrow> exn + mime" where
  "make_attachment w p =
     (case split_ctype (content_type w p) of
        None \<Rightarrow> Inl (ValueError ''not enough values to unpack (expected 2, got 1)'')
      | Some (maintype, subtype) \<Rightarrow>
          (case fs w p of
             Regular (Inr data) \<Rightarrow>
               Inr (MIMEBase maintype subtype (Base64 data)
                      [(''Content-Transfer-Encoding'', ''base64''),
                       (''Content-Disposition'', ''attachment; filename='' @ path_name p)])
           | Regular (Inl m) \<Rightarrow> Inl (OSError m)
           | Missing \<Rightarrow> Inl (OSError ''No such file or directory'')
           | NotRegular \<Rightarrow> Inl (OSError ''Is a directory'')))"

text \<open>Lines 154-182, the second loop: the parts in the order of the paths; an exception
  in the inner \<^verbatim>\<open>try\<close> is logged and ends the method with \<^verbatim>\<open>return False\<close>.\<close>

fun attach_files :: "world \<Rightarrow> string list \<Rightarrow> mime list outcome \<times> event list" where
  "attach_files w [] = (Continue [], [])"
| "attach_files w (p # ps) =
     (case make_attachment w p of
        Inl e \<Rightarrow>
          (if is_Exception e
           then (Return False, [LogError (''Error attaching file '' @ p @ '': '' @ str_exn e)])
           else (Raise e, []))
      | Inr a \<Rightarrow>
          (case attach_files w ps of
             (Continue as, tr) \<Rightarrow> (Continue (a # as), tr)
           | other \<Rightarrow> other))"

subsection \<open>The message (lines 136-211)\<close>

text \<open>\<^verbatim>\<open>", ".join(xs)\<close>\<close>

fun join :: "string list \<Rightarrow> string" where
  "join [] = []"
| "join [x] = x"
| "join (x # y # ys) = x @ '', '' @ join (y # ys)"

text \<open>Lines 141-148 and 186-196: the body part.\<close>

definition body_part :: "send_request \<Rightarrow> string \<Rightarrow> mime" where
  "body_part r b =
     (if truthy (body_html r)
      then (case body_html r of
              Some h \<Rightarrow> MIMEMultipart ''alternative'' [MIMEText b ''plain'', MIMEText h ''html'']
            | None \<Rightarrow> MIMEText b ''plain'')
      else MIMEText b ''plain'')"

text \<open>Lines 136-196.\<close>

definition build_root :: "world \<Rightarrow> send_request \<Rightarrow> string \<Rightarrow> string list \<Rightarrow> mime outcome \<times> event list"
  where
  "build_root w r b attachment_paths =
     (if attachment_paths \<noteq> []
      then (case attach_files w attachment_paths of
              (Continue parts, tr) \<Rightarrow> (Continue (MIMEMultipart ''mixed'' (body_part r b # parts)), tr)
            | (Return x, tr) \<Rightarrow> (Return x, tr)
            | (Raise e, tr) \<Rightarrow> (Raise e, tr))
      else (Continue (body_part r b), []))"

text \<open>Line 200: \<^verbatim>\<open>from_address or self.config.default_sender or self.config.gmail_address\<close>\<close>

definition sender :: "EmailConfig \<Rightarrow> send_request \<Rightarrow> string" where
  "sender cfg r =
     (case from_address r of
        Some f \<Rightarrow> (if f \<noteq> [] then f
                   else if default_sender cfg \<noteq> [] then default_sender cfg
                   else gmail_address cfg)
      | None \<Rightarrow> (if default_sender cfg \<noteq> [] then default_sender cfg else gmail_address cfg))"

text \<open>Lines 199-204.\<close>

definition set_headers :: "EmailConfig \<Rightarrow> send_request \<Rightarrow> (string \<times> string) list" where
  "set_headers cfg r =
     [(''Subject'', subject r), (''From'', sender cfg r), (''To'', join (as_list (to r)))]
     @ (if truthy_sl (cc r) then [(''Cc'', join (opt_list (cc r)))] else [])"

text \<open>Lines 207-211.\<close>

definition all_recipients :: "send_request \<Rightarrow> string list" where
  "all_recipients r =
     as_list (to r)
     @ (if truthy_sl (cc r) then opt_list (cc r) else [])
     @ (if truthy_sl (bcc r) then opt_list (bcc r) else [])"

text \<open>Lines 84-211: everything before the connection is opened.\<close>

definition compose ::
  "EmailConfig \<Rightarrow> world \<Rightarrow> send_request \<Rightarrow> (message \<times> string list) outcome \<times> event list" where
  "compose cfg w r =
     (case resolve_body r of
        (Raise e, tr) \<Rightarrow> (Raise e, tr)
      | (Return x, tr) \<Rightarrow> (Return x, tr)
      | (Continue b, tr) \<Rightarrow>
          (case resolve_attachments w r of
             (Raise e, tr1) \<Rightarrow> (Raise e, tr @ tr1)
           | (Return x, tr1) \<Rightarrow> (Return x, tr @ tr1)
           | (Continue attachment_paths, tr1) \<Rightarrow>
               (case build_root w r b attachment_paths of
                  (Raise e, tr2) \<Rightarrow> (Raise e, tr @ tr1 @ tr2)
                | (Return x, tr2) \<Rightarrow> (Return x, tr @ tr1 @ tr2)
                | (Continue m, tr2) \<Rightarrow>
                    (Continue (\<lparr>root = m, headers = set_headers cfg r\<rparr>, all_recipients r),
                     tr @ tr1 @ tr2))))"

subsection \<open>The transport (lines 216-227)\<close>

text \<open>The statements inside the \<^verbatim>\<open>with\<close> block: the exception that leaves them, if
  any, and the calls made.\<close>

definition session ::
  "EmailConfig \<Rightarrow> smtp_behaviour \<Rightarrow> message \<Rightarrow> string list \<Rightarrow> exn option \<times> event list" where
  "session cfg srv msg recipients =
     (let tls = (if use_tls cfg then [StartTLS] else []);
          login = Login (gmail_address cfg) (gmail_password cfg)
      in case (if use_tls cfg then on_starttls srv else None) of
           Some e \<Rightarrow> (Some e, tls)
         | None \<Rightarrow>
             (case on_login srv (gmail_address cfg) (gmail_password cfg) of
                Some e \<Rightarrow> (Some e, tls @ [login])
              | None \<Rightarrow>
                  (case on_send_message srv msg recipients of
                     Some e \<Rightarrow> (Some e, tls @ [login, SendMessage msg recipients])
                   | None \<Rightarrow> (None, tls @ [login, SendMessage msg recipients]))))"

text \<open>The \<^verbatim>\<open>with\<close> statement: when the constructor raises there is no block and no exit;
  otherwise the exit runs whatever the block did, and an exception of the exit replaces
  the one of the block.\<close>

definition deliver ::
  "EmailConfig \<Rightarrow> smtp_behaviour \<Rightarrow> message \<Rightarrow> string list \<Rightarrow> exn option \<times> event list" where
  "deliver cfg srv msg recipients =
     (case on_connect srv (smtp_server cfg) (smtp_port cfg) of
        Some e \<Rightarrow> (Some e, [Connect (smtp_server cfg) (smtp_port cfg)])
      | None \<Rightarrow>
          (case session cfg srv msg recipients of
             (pending, tr) \<Rightarrow>
               ((case on_quit srv of Some e \<Rightarrow> Some e | None \<Rightarrow> pending),
                [Connect (smtp_server cfg) (smtp_port cfg)] @ tr @ [Quit])))"

subsection \<open>send_email (lines 83-236)\<close>

text \<open>The two \<^verbatim>\<open>except\<close> clauses of lines 231-236.\<close>

definition handle :: "send_request \<Rightarrow> exn \<Rightarrow> result \<times> event list" where
  "handle r e =
     (if is_SMTPException e
      then (Returned False,
            [LogError (''SMTP error occurred while sending email - Subject: '' @ [CHR 0x27]
                       @ subject r @ [CHR 0x27] @ '': '' @ str_exn e)])
      else if is_Exception e
      then (Returned False,
            [LogError (''Unexpected error sending email - Subject: '' @ [CHR 0x27]
                       @ subject r @ [CHR 0x27] @ '': '' @ str_exn e)])
      else (Propagated e, []))"

definition send_email :: "EmailConfig \<Rightarrow> world \<Rightarrow> send_request \<Rightarrow> result \<times> event list" where
  "send_email cfg w r =
     (case compose cfg w r of
        (Raise e, tr) \<Rightarrow> (case handle r e of (res, tr1) \<Rightarrow> (res, tr @ tr1))
      | (Return x, tr) \<Rightarrow> (Returned x, tr)
      | (Continue (msg, recipients), tr) \<Rightarrow>
          (case deliver cfg (smtp w) msg recipients of
             (Some e, tr1) \<Rightarrow> (case handle r e of (res, tr2) \<Rightarrow> (res, tr @ tr1 @ tr2))
           | (None, tr1) \<Rightarrow> (Returned True, tr @ tr1)))"

section \<open>Scheduled emails (src/src/scheduler.py)\<close>

text \<open>
  The registry of the third-party package \<^verbatim>\<open>schedule\<close> is a list of jobs. A job made
  by one of the three methods is a closure over the arguments of the method, whose body
  is one call of \<^verbatim>\<open>send_email\<close> (lines 65, 91, 115); it is kept here as the request of
  that call. Whether the package takes a unit and a time or raises on them is a
  parameter, \<open>accepts\<close>; when it raises, the method ends before \<^verbatim>\<open>do\<close> and nothing is
  registered.
\<close>

datatype trigger = DailyAt string | WeeklyAt string string | EveryMinutes int

record job =
  trigger :: trigger
  call :: send_request

text \<open>\<^verbatim>\<open>str.lower()\<close> on the code points below 256.\<close>

definition lower_char :: "char \<Rightarrow> char" where
  "lower_char c = (let n = (of_char c :: nat) in
     if (65 \<le> n \<and> n \<le> 90) \<or> (192 \<le> n \<and> n \<le> 222 \<and> n \<noteq> 215) then char_of (n + 32) else c)"

definition lower :: "string \<Rightarrow> string" where
  "lower s = map lower_char s"

text \<open>The call in the body of the three closures:
  \<^verbatim>\<open>send_email(to=to, subject=subject, body=body, body_html=body_html, attachments=None)\<close>\<close>

definition job_request ::
  "str_or_list \<Rightarrow> string \<Rightarrow> string option \<Rightarrow> string option \<Rightarrow> send_request" where
  "job_request t s b h =
     \<lparr>to = t, subject = s, body = b, body_html = h, from_address = None,
      cc = None, bcc = None, attachments = None\<rparr>"

definition register :: "(trigger \<Rightarrow> bool) \<Rightarrow> trigger \<Rightarrow> send_request \<Rightarrow> job list \<Rightarrow> job list option"
  where
  "register accepts tg rq jobs =
     (if accepts tg then Some (jobs @ [\<lparr>trigger = tg, call = rq\<rparr>]) else None)"

definition schedule_daily ::
  "(trigger \<Rightarrow> bool) \<Rightarrow> string \<Rightarrow> str_or_list \<Rightarrow> string \<Rightarrow> string option \<Rightarrow> string option
     \<Rightarrow> job list \<Rightarrow> job list option" where
  "schedule_daily accepts time_str t s b h jobs =
     register accepts (DailyAt time_str) (job_request t s b h) jobs"

definition schedule_weekly ::
  "(trigger \<Rightarrow> bool) \<Rightarrow> string \<Rightarrow> string \<Rightarrow> str_or_list \<Rightarrow> string \<Rightarrow> string option
     \<Rightarrow> string option \<Rightarrow> job list \<Rightarrow> job list option" where
  "schedule_weekly accepts day time_str t s b h jobs =
     register accepts (WeeklyAt (lower day) time_str) (job_request t s b h) jobs"

definition schedule_interval ::
  "(trigger \<Rightarrow> bool) \<Rightarrow> int \<Rightarrow> str_or_list \<Rightarrow> string \<Rightarrow> string option \<Rightarrow> string option
     \<Rightarrow> job list \<Rightarrow> job list option" where
  "schedule_interval accepts interval_minutes t s b h jobs =
     register accepts (EveryMinutes interval_minutes) (job_request t s b h) jobs"

text \<open>Running a job: the closure calls \<^verbatim>\<open>send_email\<close> and drops what it returns.\<close>

definition run_job :: "EmailConfig \<Rightarrow> world \<Rightarrow> job \<Rightarrow> result \<times> event list" where
  "run_job cfg w j = send_email cfg w (call j)"

text \<open>A program that schedules emails is a sequence of calls of the three methods; a
  call on which the package raises leaves the registry as it was.\<close>

datatype sched_call =
    ScheduleDaily string str_or_list string "string option" "string option"
  | ScheduleWeekly string string str_or_list string "string option" "string option"
  | ScheduleInterval int str_or_list string "string option" "string option"

fun apply_call :: "(trigger \<Rightarrow> bool) \<Rightarrow> job list \<Rightarrow> sched_call \<Rightarrow> job list" where
  "apply_call accepts jobs (ScheduleDaily tm t s b h) =
     (case schedule_daily accepts tm t s b h jobs of Some js \<Rightarrow> js | None \<Rightarrow> jobs)"
| "apply_call accepts jobs (ScheduleWeekly d tm t s b h) =
     (case schedule_weekly accepts d tm t s b h jobs of Some js \<Rightarrow> js | None \<Rightarrow> jobs)"
| "apply_call accepts jobs (ScheduleInterval n t s b h) =
     (case schedule_interval accepts n t s b h jobs of Some js \<Rightarrow> js | None \<Rightarrow> jobs)"

definition registry_after :: "(trigger \<Rightarrow> bool) \<Rightarrow> sched_call list \<Rightarrow> job list" where
  "registry_after accepts calls = foldl (apply_call accepts) [] calls"

text \<open>The number of file parts in a MIME tree.\<close>

fun attachment_count :: "mime \<Rightarrow> nat" where
  "attachment_count (MIMEText t s) = 0"
| "attachment_count (MIMEMultipart s ps) = sum_list (map attachment_count ps)"
| "attachment_count (MIMEBase mt st pl hs) = 1"

text \<open>An exception that the handlers of lines 231-236 catch, or none at all.\<close>

definition caught :: "exn option \<Rightarrow> bool" where
  "caught x = (case x of None \<Rightarrow> True | Some e \<Rightarrow> is_Exception e)"

section \<open>Example inputs\<close>

definition example_config :: EmailConfig where
  "example_config =
     \<lparr>smtp_server = ''smtp.gmail.com'', smtp_port = 587, gmail_address = ''me@gmail.com'',
      gmail_password = ''app-password'', default_sender = ''me@gmail.com'', use_tls = True\<rparr>"

definition example_server :: smtp_behaviour where
  "example_server =
     \<lparr>on_connect = (\<lambda>h p. None), on_starttls = None, on_login = (\<lambda>u p. None),
      on_send_message = (\<lambda>m rc. None), on_quit = None\<rparr>"

text \<open>A file system with one text file, one compressed archive and one directory.\<close>

definition example_world :: world where
  "example_world =
     \<lparr>fs = (\<lambda>p. if p = ''report.txt'' then Regular (Inr [72, 105])
                else if p = ''logs.tar.gz'' then Regular (Inr [31, 139])
                else if p = ''dir'' then NotRegular
                else Missing),
      guess_type = (\<lambda>p. if p = ''report.txt'' then (Some ''text/plain'', None)
                        else if p = ''logs.tar.gz'' then (Some ''application/x-tar'', Some ''gzip'')
                        else (None, None)),
      smtp = example_server,
      clock = 0\<rparr>"

definition example_request :: send_request where
  "example_request =
     \<lparr>to = Str ''a@x.com'', subject = ''Hi'', body = Some ''hello'', body_html = None,
      from_address = None, cc = None, bcc = None, attachments = None\<rparr>"


definition attachment_request :: send_request where
  "attachment_request =
     example_request\<lparr>body_html := Some ''<b>hello</b>'',
                      attachments := Some (Lst [''report.txt'', ''logs.tar.gz''])\<rparr>"

definition bad_attachments_request :: send_request where
  "bad_attachments_request = example_request\<lparr>attachments := Some (Lst [''dir'', ''missing.txt''])\<rparr>"

definition cc_bcc_request :: send_request where
  "cc_bcc_request =
     example_request\<lparr>to := Lst [''a@x.com'', ''b@x.com''], from_address := Some ''boss@x.com'',
                      cc := Some (Str ''c@x.com''), bcc := Some (Lst [''d@x.com'', ''e@x.com''])\<rparr>"

text \<open>Two files in directories, named by an absolute and by a relative path.\<close>

definition nested_world :: world where
  "nested_world =
     example_world
       \<lparr>fs := (\<lambda>p. if p = ''/home/u/docs/report.txt'' then Regular (Inr [72, 105])
                    else if p = ''backup/2025/logs.tar.gz'' then Regular (Inr [31, 139])
                    else Missing),
        guess_type := (\<lambda>p. if p = ''/home/u/docs/report.txt'' then (Some ''text/plain'', None)
                            else if p = ''backup/2025/logs.tar.gz''
                            then (Some ''application/x-tar'', Some ''gzip'')
                            else (None, None))\<rparr>"

definition nested_request :: send_request where
  "nested_request =
     example_request
       \<lparr>attachments := Some (Lst [''/home/u/docs/report.txt'', ''backup/2025/logs.tar.gz''])\<rparr>"

text \<open>A server that refuses the login, and the world with it.\<close>

definition refusing_server :: smtp_behaviour where
  "refusing_server =
     example_server\<lparr>on_login := (\<lambda>u p. Some (SMTPException ''535 bad credentials''))\<rparr>"

definition refused_world :: world where
  "refused_world = example_world\<lparr>smtp := refusing_server\<rparr>"

text \<open>The same files a day later: one more file, another server, another time.\<close>

definition later_world :: world where
  "later_world =
     example_world\<lparr>fs := (fs example_world)(''new.txt'' := Regular (Inr [1])),
                    smtp := example_server\<lparr>on_quit := Some (OSError ''connection reset'')\<rparr>,
                    clock := 86400\<rparr>"

text \<open>A package that takes times of five characters, two week days and positive
  intervals; three calls, of which the second names no week day.\<close>

definition example_accepts :: "trigger \<Rightarrow> bool" where
  "example_accepts tg =
     (case tg of DailyAt t \<Rightarrow> length t = 5
      | WeeklyAt d t \<Rightarrow> d \<in> set [''monday'', ''friday''] \<and> length t = 5
      | EveryMinutes n \<Rightarrow> 0 < n)"

definition example_calls :: "sched_call list" where
  "example_calls =
     [ScheduleDaily ''09:30'' (Str ''a@x.com'') ''Daily'' (Some ''report'') None,
      ScheduleWeekly ''Someday'' ''10:00'' (Str ''a@x.com'') ''Never'' (Some ''x'') None,
      ScheduleWeekly ''Monday'' ''10:00'' (Lst [''a@x.com'', ''b@x.com'']) ''Weekly'' None
        (Some ''<p>Hi</p>'')]"

section \<open>Properties\<close>

subsection \<open>The two loops over the attachments\<close>

lemma validate_attachments_cases:
  "(validate_attachments f ps = (Continue ps, []) \<and> (\<forall>p\<in>set ps. \<exists>d. f p = Regular d))
   \<or> (\<exists>pre p post. ps = pre @ p # post \<and> (\<forall>q\<in>set pre. \<exists>d. f q = Regular d)
        \<and> ((f p = Missing \<and> validate_attachments f ps
               = (Return False, [LogError (''Attachment file not found: '' @ p)]))
           \<or> (f p = NotRegular \<and> validate_attachments f ps
               = (Return False, [LogError (''Attachment is not a file: '' @ p)]))))"
proof (induction ps)
  case Nil
  then show ?case by simp
next
  case (Cons a ps)
  show ?case
  proof (cases "f a")
    case Missing
    then have "a # ps = [] @ a # ps \<and> (\<forall>q\<in>set []. \<exists>d. f q = Regular d) \<and> f a = Missing
      \<and> validate_attachments f (a # ps) = (Return False, [LogError (''Attachment file not found: '' @ a)])"
      by simp
    then show ?thesis by blast
  next
    case NotRegular
    then have "a # ps = [] @ a # ps \<and> (\<forall>q\<in>set []. \<exists>d. f q = Regular d) \<and> f a = NotRegular
      \<and> validate_attachments f (a # ps) = (Return False, [LogError (''Attachment is not a file: '' @ a)])"
      by simp
    then show ?thesis by blast
  next
    case (Regular d)
    from Cons.IH show ?thesis
    proof
      assume "validate_attachments f ps = (Continue ps, []) \<and> (\<forall>p\<in>set ps. \<exists>d. f p = Regular d)"
      with Regular show ?thesis by simp
    next
      assume "\<exists>pre p post. ps = pre @ p # post \<and> (\<forall>q\<in>set pre. \<exists>d. f q = Regular d)
        \<and> ((f p = Missing \<and> validate_attachments f ps
               = (Return False, [LogError (''Attachment file not found: '' @ p)]))
           \<or> (f p = NotRegular \<and> validate_attachments f ps
               = (Return False, [LogError (''Attachment is not a file: '' @ p)])))"
      then obtain pre p post where h: "ps = pre @ p # post" "\<forall>q\<in>set pre. \<exists>d. f q = Regular d"
        "(f p = Missing \<and> validate_attachments f ps
               = (Return False, [LogError (''Attachment file not found: '' @ p)]))
           \<or> (f p = NotRegular \<and> validate_attachments f ps
               = (Return False, [LogError (''Attachment is not a file: '' @ p)]))" by blast
      have 1: "a # ps = (a # pre) @ p # post" using h(1) by simp
      have 2: "\<forall>q\<in>set (a # pre). \<exists>d. f q = Regular d" using h(2) Regular by simp
      have 3: "(f p = Missing \<and> validate_attachments f (a # ps)
               = (Return False, [LogError (''Attachment file not found: '' @ p)]))
           \<or> (f p = NotRegular \<and> validate_attachments f (a # ps)
               = (Return False, [LogError (''Attachment is not a file: '' @ p)]))"
        using h(3) Regular by auto
      from 1 2 3 show ?thesis by blast
    qed
  qed
qed

lemma validate_first_missing:
  assumes "\<forall>q\<in>set pre. \<exists>d. f q = Regular d" and "f p = Missing"
  shows "validate_attachments f (pre @ p # post)
          = (Return False, [LogError (''Attachment file not found: '' @ p)])"
  using assms by (induction pre) auto

lemma validate_first_not_regular:
  assumes "\<forall>q\<in>set pre. \<exists>d. f q = Regular d" and "f p = NotRegular"
  shows "validate_attachments f (pre @ p # post)
          = (Return False, [LogError (''Attachment is not a file: '' @ p)])"
  using assms by (induction pre) auto

lemma validate_attachments_subset:
  assumes "validate_attachments f ps = (Continue qs, tr)"
  shows "qs = ps"
  using validate_attachments_cases [of f ps]
proof (elim disjE exE conjE)
  assume "validate_attachments f ps = (Continue ps, [])"
  with assms show ?thesis by simp
next
  fix pre p post
  assume "validate_attachments f ps
            = (Return False, [LogError (''Attachment file not found: '' @ p)])"
  with assms show ?thesis by simp
next
  fix pre p post
  assume "validate_attachments f ps
            = (Return False, [LogError (''Attachment is not a file: '' @ p)])"
  with assms show ?thesis by simp
qed

lemma validate_attachments_cong:
  "\<forall>p\<in>set ps. f p = g p \<Longrightarrow> validate_attachments f ps = validate_attachments g ps"
proof (induction ps)
  case Nil
  then show ?case by simp
next
  case (Cons a ps)
  then have "f a = g a" and "validate_attachments f ps = validate_attachments g ps"
    by simp_all
  then show ?case by (cases "g a") simp_all
qed

lemma attach_files_cases:
  "(\<exists>parts. attach_files w ps = (Continue parts, []) \<and> map (make_attachment w) ps = map Inr parts)
   \<or> (\<exists>m. attach_files w ps = (Return False, [LogError m]))"
proof (induction ps)
  case Nil
  then show ?case by simp
next
  case (Cons p ps)
  show ?case
  proof (cases "make_attachment w p")
    case (Inl e)
    then have "is_Exception e"
      by (cases e) (auto simp: make_attachment_def split: option.splits fs_entry.splits sum.splits prod.splits)
    with Inl show ?thesis by simp
  next
    case (Inr a)
    from Cons.IH show ?thesis
    proof
      assume "\<exists>parts. attach_files w ps = (Continue parts, []) \<and> map (make_attachment w) ps = map Inr parts"
      then obtain parts where "attach_files w ps = (Continue parts, [])"
        "map (make_attachment w) ps = map Inr parts" by blast
      with Inr have "attach_files w (p # ps) = (Continue (a # parts), [])
         \<and> map (make_attachment w) (p # ps) = map Inr (a # parts)" by simp
      then show ?thesis by blast
    next
      assume "\<exists>m. attach_files w ps = (Return False, [LogError m])"
      with Inr show ?thesis by auto
    qed
  qed
qed

lemma make_attachment_cong:
  assumes "fs w1 p = fs w2 p" and "guess_type w1 p = guess_type w2 p"
  shows "make_attachment w1 p = make_attachment w2 p"
  unfolding make_attachment_def content_type_def assms by (rule refl)

lemma attach_files_cong:
  "\<forall>p\<in>set ps. fs w1 p = fs w2 p \<and> guess_type w1 p = guess_type w2 p
     \<Longrightarrow> attach_files w1 ps = attach_files w2 ps"
proof (induction ps)
  case Nil
  then show ?case by simp
next
  case (Cons a ps)
  then have "fs w1 a = fs w2 a" and "guess_type w1 a = guess_type w2 a"
    and t: "attach_files w1 ps = attach_files w2 ps"
    by simp_all
  from make_attachment_cong [OF this(1,2)] t
  have "make_attachment w1 a = make_attachment w2 a"
    and "attach_files w1 ps = attach_files w2 ps"
    by blast+
  then show ?case by (cases "make_attachment w2 a") simp_all
qed

subsection \<open>What composition can do\<close>

lemma all_recipients_eq:
  "all_recipients r = as_list (to r) @ opt_list (cc r) @ opt_list (bcc r)"
  by (simp add: all_recipients_def opt_list_def split: option.splits)

lemma resolve_attachments_eq:
  "resolve_attachments w r = validate_attachments (fs w) (opt_list (attachments r))"
  by (cases "attachments r") (auto simp: resolve_attachments_def opt_list_def)

lemma resolve_body_cases:
  "(\<not> truthy (body r) \<and> \<not> truthy (body_html r) \<and> resolve_body r =
       (Raise (ValueError ''Either body (plain text) or body_html must be provided''),
        [LogError ''Either body or body_html must be provided'']))
   \<or> (\<exists>b. \<not> (\<not> truthy (body r) \<and> \<not> truthy (body_html r)) \<and> resolve_body r = (Continue b, []))"
  by (cases "body r"; cases "body_html r") (auto simp: resolve_body_def)

lemma body_part_cases:
  "body_part r b =
     (case body_html r of
        None \<Rightarrow> MIMEText b ''plain''
      | Some h \<Rightarrow> if h = [] then MIMEText b ''plain''
                  else MIMEMultipart ''alternative'' [MIMEText b ''plain'', MIMEText h ''html''])"
  by (cases "body_html r") (auto simp: body_part_def)

lemma build_root_cases:
  "(\<exists>m. build_root w r b ps = (Return False, [LogError m]))
   \<or> (ps = [] \<and> build_root w r b ps = (Continue (body_part r b), []))
   \<or> (\<exists>parts. ps \<noteq> [] \<and> map (make_attachment w) ps = map Inr parts
        \<and> build_root w r b ps = (Continue (MIMEMultipart ''mixed'' (body_part r b # parts)), []))"
  using attach_files_cases [of w ps] by (auto simp: build_root_def)

lemma compose_Continue:
  assumes "compose cfg w r = (Continue (msg, rc), tr)"
  shows "\<exists>b. resolve_body r = (Continue b, [])
           \<and> (\<forall>p\<in>set (opt_list (attachments r)). \<exists>d. fs w p = Regular d)
           \<and> tr = [] \<and> rc = all_recipients r \<and> headers msg = set_headers cfg r
           \<and> (if opt_list (attachments r) = [] then root msg = body_part r b
               else (\<exists>parts. map (make_attachment w) (opt_list (attachments r)) = map Inr parts
                       \<and> root msg = MIMEMultipart ''mixed'' (body_part r b # parts)))"
proof -
  from resolve_body_cases [of r] assms obtain b where b: "resolve_body r = (Continue b, [])"
    by (auto simp: compose_def)
  let ?ps = "opt_list (attachments r)"
  from validate_attachments_cases [of "fs w" ?ps] assms b
  have v: "validate_attachments (fs w) ?ps = (Continue ?ps, [])"
    and reg: "\<forall>p\<in>set ?ps. \<exists>d. fs w p = Regular d"
    by (auto simp: compose_def resolve_attachments_eq)
  from build_root_cases [of w r b ?ps] show ?thesis
  proof (elim disjE exE conjE)
    fix m assume "build_root w r b ?ps = (Return False, [LogError m])"
    with assms b v show ?thesis by (simp add: compose_def resolve_attachments_eq)
  next
    assume "?ps = []" "build_root w r b ?ps = (Continue (body_part r b), [])"
    with assms b v reg show ?thesis by (auto simp: compose_def resolve_attachments_eq)
  next
    fix parts assume "?ps \<noteq> []" "map (make_attachment w) ?ps = map Inr parts"
      "build_root w r b ?ps = (Continue (MIMEMultipart ''mixed'' (body_part r b # parts)), [])"
    with assms b v reg show ?thesis by (auto simp: compose_def resolve_attachments_eq)
  qed
qed

lemma compose_no_network: "filter is_network (snd (compose cfg w r)) = []"
proof -
  let ?ps = "opt_list (attachments r)"
  from resolve_body_cases [of r] show ?thesis
  proof (elim disjE exE conjE)
    assume "resolve_body r =
       (Raise (ValueError ''Either body (plain text) or body_html must be provided''),
        [LogError ''Either body or body_html must be provided''])"
    then show ?thesis by (simp add: compose_def)
  next
    fix b assume b: "resolve_body r = (Continue b, [])"
    from validate_attachments_cases [of "fs w" ?ps] show ?thesis
    proof (elim disjE exE conjE)
      assume v: "validate_attachments (fs w) ?ps = (Continue ?ps, [])"
      from build_root_cases [of w r b ?ps] show ?thesis
        by (auto simp: compose_def resolve_attachments_eq b v)
    next
      fix pre p post
      assume "validate_attachments (fs w) ?ps
               = (Return False, [LogError (''Attachment file not found: '' @ p)])"
      then show ?thesis by (simp add: compose_def resolve_attachments_eq b)
    next
      fix pre p post
      assume "validate_attachments (fs w) ?ps
               = (Return False, [LogError (''Attachment is not a file: '' @ p)])"
      then show ?thesis by (simp add: compose_def resolve_attachments_eq b)
    qed
  qed
qed

lemma compose_bad_attachment:
  assumes "resolve_body r = (Continue b, [])"
    and "validate_attachments (fs w) (opt_list (attachments r)) = (Return False, tr)"
  shows "compose cfg w r = (Return False, tr)"
  using assms by (simp add: compose_def resolve_attachments_eq)

subsection \<open>What send_email does with a composition\<close>

lemma send_email_Return:
  "compose cfg w r = (Return x, tr) \<Longrightarrow> send_email cfg w r = (Returned x, tr)"
  by (simp add: send_email_def)

lemma send_email_Continue:
  assumes "compose cfg w r = (Continue (msg, rc), tr)"
  shows "send_email cfg w r =
     (case deliver cfg (smtp w) msg rc of
        (Some e, tr1) \<Rightarrow> (fst (handle r e), tr1 @ snd (handle r e))
      | (None, tr1) \<Rightarrow> (Returned True, tr1))"
proof -
  from compose_Continue [OF assms] have "tr = []" by blast
  with assms show ?thesis
    by (simp add: send_email_def split: prod.splits option.splits)
qed

lemma session_SendMessage:
  "SendMessage m' rc' \<in> set (snd (session cfg srv msg rc)) \<Longrightarrow> m' = msg \<and> rc' = rc"
  by (auto simp: session_def Let_def split: option.splits if_splits)

lemma deliver_SendMessage:
  "SendMessage m' rc' \<in> set (snd (deliver cfg srv msg rc)) \<Longrightarrow> m' = msg \<and> rc' = rc"
  using session_SendMessage [of m' rc' cfg srv msg rc]
  by (auto simp: deliver_def split: option.splits prod.splits)

lemma handle_no_SendMessage: "SendMessage m' rc' \<notin> set (snd (handle r e))"
  by (simp add: handle_def)

lemma send_email_SendMessage:
  assumes "compose cfg w r = (Continue (msg, rc), tr)"
    and "SendMessage m' rc' \<in> set (snd (send_email cfg w r))"
  shows "m' = msg \<and> rc' = rc"
proof (cases "deliver cfg (smtp w) msg rc")
  case (Pair x tr1)
  with assms(2) send_email_Continue [OF assms(1)] handle_no_SendMessage
  have "SendMessage m' rc' \<in> set tr1"
    by (cases x) auto
  with Pair deliver_SendMessage [of m' rc' cfg "smtp w" msg rc] show ?thesis by simp
qed

lemma handle_caught:
  "is_Exception e \<Longrightarrow> fst (handle r e) = Returned False
     \<and> filter is_network (snd (handle r e)) = []"
  by (simp add: handle_def)

lemma deliver_outcome:
  "fst (deliver cfg srv msg rc) = None \<longleftrightarrow>
     on_connect srv (smtp_server cfg) (smtp_port cfg) = None
     \<and> (use_tls cfg \<longrightarrow> on_starttls srv = None)
     \<and> on_login srv (gmail_address cfg) (gmail_password cfg) = None
     \<and> on_send_message srv msg rc = None
     \<and> on_quit srv = None"
  by (auto simp: deliver_def session_def Let_def split: option.splits)

lemma deliver_raises:
  assumes "fst (deliver cfg srv msg rc) = Some e"
  shows "on_connect srv (smtp_server cfg) (smtp_port cfg) = Some e
       \<or> (use_tls cfg \<and> on_starttls srv = Some e)
       \<or> on_login srv (gmail_address cfg) (gmail_password cfg) = Some e
       \<or> on_send_message srv msg rc = Some e
       \<or> on_quit srv = Some e"
  using assms by (auto simp: deliver_def session_def Let_def split: option.splits if_splits)

lemma deliver_trace:
  "\<exists>tr. snd (deliver cfg srv msg rc) = tr \<and> filter is_network tr = tr \<and> distinct tr
     \<and> (fst (deliver cfg srv msg rc) = None \<longrightarrow> SendMessage msg rc \<in> set tr)"
  by (auto simp: deliver_def session_def Let_def split: option.splits)

lemma send_missing_body:
  assumes "\<not> truthy (body r)" and "\<not> truthy (body_html r)"
  shows "compose cfg w r =
           (Raise (ValueError ''Either body (plain text) or body_html must be provided''),
            [LogError ''Either body or body_html must be provided''])"
    and "fst (send_email cfg w r) = Returned False"
    and "filter is_network (snd (send_email cfg w r)) = []"
proof -
  from assms show c: "compose cfg w r =
           (Raise (ValueError ''Either body (plain text) or body_html must be provided''),
            [LogError ''Either body or body_html must be provided''])"
    by (simp add: compose_def resolve_body_def)
  from c show "fst (send_email cfg w r) = Returned False"
    by (simp add: send_email_def handle_def)
  from c show "filter is_network (snd (send_email cfg w r)) = []"
    by (simp add: send_email_def handle_def)
qed

subsection \<open>An empty body and no body\<close>

lemma body_part_body_update: "body_part (r\<lparr>body := x\<rparr>) b = body_part r b"
  by (simp add: body_part_def)

lemma build_root_body_update: "build_root w (r\<lparr>body := x\<rparr>) b ps = build_root w r b ps"
  unfolding build_root_def body_part_body_update by (rule refl)

lemma body_update_irrelevant:
  "resolve_attachments w (r\<lparr>body := x\<rparr>) = resolve_attachments w r"
  "set_headers cfg (r\<lparr>body := x\<rparr>) = set_headers cfg r"
  "all_recipients (r\<lparr>body := x\<rparr>) = all_recipients r"
  "handle (r\<lparr>body := x\<rparr>) e = handle r e"
  by (simp_all add: resolve_attachments_def set_headers_def
      all_recipients_def sender_def handle_def)

lemma resolve_body_empty:
  "resolve_body (r\<lparr>body := Some []\<rparr>) = resolve_body (r\<lparr>body := None\<rparr>)"
  by (simp add: resolve_body_def)

lemma compose_empty_body:
  "compose cfg w (r\<lparr>body := Some []\<rparr>) = compose cfg w (r\<lparr>body := None\<rparr>)"
  unfolding compose_def body_update_irrelevant build_root_body_update resolve_body_empty
  by (rule refl)

lemma send_email_empty_body:
  "send_email cfg w (r\<lparr>body := Some []\<rparr>) = send_email cfg w (r\<lparr>body := None\<rparr>)"
  unfolding send_email_def body_update_irrelevant compose_empty_body by (rule refl)

subsection \<open>Tags, content types and file names\<close>

text \<open>The substitution leaves a text without \<^verbatim>\<open><\<close> as it is and removes a tag at the
  head of a text; a content type is split at its first slash; the name of a path is
  what follows its last slash.\<close>

lemma re_sub_tags_no_open: "CHR ''<'' \<notin> set s \<Longrightarrow> re_sub_tags s = s"
  by (induction s) auto

lemma re_sub_tags_tag:
  assumes "t \<noteq> []" and "CHR ''>'' \<notin> set t"
  shows "re_sub_tags (CHR ''<'' # t @ CHR ''>'' # s) = re_sub_tags s"
proof -
  from assms(2) have n: "\<And>x. x \<in> set t \<Longrightarrow> x \<noteq> CHR ''>''" by blast
  have "takeWhile (\<lambda>x. x \<noteq> CHR ''>'') (t @ CHR ''>'' # s) = t"
    using n by (simp add: takeWhile_append2)
  moreover have "dropWhile (\<lambda>x. x \<noteq> CHR ''>'') (t @ CHR ''>'' # s) = CHR ''>'' # s"
    using n by (simp add: dropWhile_append2)
  ultimately show ?thesis using assms(1) by simp
qed

lemma split_ctype_Some:
  assumes "split_ctype c = Some (mt, st)"
  shows "mt @ ''/'' @ st = c"
proof -
  let ?P = "\<lambda>x. x \<noteq> CHR ''/''"
  from assms have m: "CHR ''/'' \<in> set c" and mt: "mt = takeWhile ?P c"
    and st: "st = tl (dropWhile ?P c)"
    by (auto simp: split_ctype_def split: if_splits)
  from m have ne: "dropWhile ?P c \<noteq> []" by (simp add: dropWhile_eq_Nil_conv)
  then have "hd (dropWhile ?P c) = CHR ''/''"
    using hd_dropWhile [of ?P c] by simp
  with ne have "dropWhile ?P c = CHR ''/'' # st"
    unfolding st by (cases "dropWhile ?P c") simp_all
  then have "mt @ ''/'' @ st = takeWhile ?P c @ dropWhile ?P c"
    by (simp add: mt)
  then show ?thesis by simp
qed

lemma content_type_eq:
  "content_type w p =
     (if fst (guess_type w p) = None \<or> snd (guess_type w p) \<noteq> None
      then ''application/octet-stream'' else the (fst (guess_type w p)))"
  by (cases "guess_type w p") (auto simp: content_type_def split: option.splits)

lemma make_attachment_Inr:
  assumes "make_attachment w p = Inr a"
  shows "\<exists>mt st data. fs w p = Regular (Inr data)
           \<and> a = MIMEBase mt st (Base64 data)
                   [(''Content-Transfer-Encoding'', ''base64''),
                    (''Content-Disposition'', ''attachment; filename='' @ path_name p)]
           \<and> mt @ ''/'' @ st = content_type w p"
proof (cases "split_ctype (content_type w p)")
  case None
  with assms show ?thesis by (simp add: make_attachment_def)
next
  case (Some ms)
  obtain mt st where ms: "ms = (mt, st)" by (cases ms)
  from Some ms split_ctype_Some have c: "mt @ ''/'' @ st = content_type w p" by simp
  from assms Some ms obtain data where "fs w p = Regular (Inr data)"
    and "a = MIMEBase mt st (Base64 data)
                   [(''Content-Transfer-Encoding'', ''base64''),
                    (''Content-Disposition'', ''attachment; filename='' @ path_name p)]"
    by (auto simp: make_attachment_def split: fs_entry.splits sum.splits)
  with c show ?thesis by blast
qed

lemma split_on_not_Nil: "split_on sep s \<noteq> []"
  by (induction s) (auto split: list.splits)

lemma split_on_append: "split_on sep (a @ sep # b) = split_on sep a @ split_on sep b"
proof (induction a)
  case Nil
  then show ?case by simp
next
  case (Cons c a)
  obtain x xs where x: "split_on sep a = x # xs"
    using split_on_not_Nil [of sep a] by (cases "split_on sep a") auto
  with Cons show ?case by simp
qed

lemma split_on_no_sep: "sep \<notin> set s \<Longrightarrow> split_on sep s = [s]"
  by (induction s) auto

lemma path_name_basename:
  assumes "CHR ''/'' \<notin> set n" and "n \<noteq> []" and "n \<noteq> ''.''"
  shows "path_name (d @ CHR ''/'' # n) = n"
proof -
  let ?keep = "\<lambda>x. x \<noteq> [] \<and> x \<noteq> ''.''"
  have "filter ?keep (split_on CHR ''/'' (d @ CHR ''/'' # n))
          = filter ?keep (split_on CHR ''/'' d) @ [n]"
    using assms by (simp add: split_on_append split_on_no_sep)
  then show ?thesis
    by (cases "filter ?keep (split_on CHR ''/'' d)") (simp_all add: path_name_def)
qed

lemma path_name_plain:
  assumes "CHR ''/'' \<notin> set p" and "p \<noteq> []" and "p \<noteq> ''.''"
  shows "path_name p = p"
  using assms by (simp add: path_name_def split_on_no_sep)

lemma split_on_trailing: "split_on sep (d @ [sep]) = split_on sep d @ [[]]"
  using split_on_append [of sep d "[]"] by simp

lemma path_name_trailing_slash: "path_name (d @ ''/'') = path_name d"
  by (simp add: path_name_def split_on_trailing)

lemma path_name_trailing_dot: "path_name (d @ ''/.'') = path_name d"
proof -
  have "split_on CHR ''/'' (d @ CHR ''/'' # ''.'') = split_on CHR ''/'' d @ [''.'']"
    by (simp add: split_on_append)
  then show ?thesis by (simp add: path_name_def)
qed

subsection \<open>The examples, evaluated\<close>


lemma attachment_request_composed:
  "compose example_config example_world attachment_request =
     (Continue
        (\<lparr>root = MIMEMultipart ''mixed''
             [MIMEMultipart ''alternative''
                [MIMEText ''hello'' ''plain'', MIMEText ''<b>hello</b>'' ''html''],
              MIMEBase ''text'' ''plain'' (Base64 [72, 105])
                [(''Content-Transfer-Encoding'', ''base64''),
                 (''Content-Disposition'', ''attachment; filename=report.txt'')],
              MIMEBase ''application'' ''octet-stream'' (Base64 [31, 139])
                [(''Content-Transfer-Encoding'', ''base64''),
                 (''Content-Disposition'', ''attachment; filename=logs.tar.gz'')]],
          headers = [(''Subject'', ''Hi''), (''From'', ''me@gmail.com''), (''To'', ''a@x.com'')]\<rparr>,
         [''a@x.com'']), [])"
  by (simp add: compose_def attachment_request_def example_request_def example_world_def
      example_config_def resolve_body_def resolve_attachments_def build_root_def body_part_def
      make_attachment_def content_type_def split_ctype_def path_name_def set_headers_def
      sender_def all_recipients_def opt_list_def)

lemma cc_bcc_request_composed:
  "compose example_config example_world cc_bcc_request =
     (Continue
        (\<lparr>root = MIMEText ''hello'' ''plain'',
          headers = [(''Subject'', ''Hi''), (''From'', ''boss@x.com''),
                     (''To'', ''a@x.com, b@x.com''), (''Cc'', ''c@x.com'')]\<rparr>,
         [''a@x.com'', ''b@x.com'', ''c@x.com'', ''d@x.com'', ''e@x.com'']), [])"
  by (simp add: compose_def cc_bcc_request_def example_request_def example_world_def
      example_config_def resolve_body_def resolve_attachments_def build_root_def body_part_def
      set_headers_def sender_def all_recipients_def opt_list_def)

lemma nested_request_composed:
  "compose example_config nested_world nested_request =
     (Continue
        (\<lparr>root = MIMEMultipart ''mixed''
             [MIMEText ''hello'' ''plain'',
              MIMEBase ''text'' ''plain'' (Base64 [72, 105])
                [(''Content-Transfer-Encoding'', ''base64''),
                 (''Content-Disposition'', ''attachment; filename=report.txt'')],
              MIMEBase ''application'' ''octet-stream'' (Base64 [31, 139])
                [(''Content-Transfer-Encoding'', ''base64''),
                 (''Content-Disposition'', ''attachment; filename=logs.tar.gz'')]],
          headers = [(''Subject'', ''Hi''), (''From'', ''me@gmail.com''), (''To'', ''a@x.com'')]\<rparr>,
         [''a@x.com'']), [])"
  by (simp add: compose_def nested_request_def example_request_def nested_world_def
      example_world_def example_config_def resolve_body_def resolve_attachments_def
      build_root_def body_part_def make_attachment_def content_type_def split_ctype_def
      path_name_def set_headers_def sender_def all_recipients_def opt_list_def)

lemma example_request_refused:
  "compose example_config refused_world example_request =
     (Continue
        (\<lparr>root = MIMEText ''hello'' ''plain'',
          headers = [(''Subject'', ''Hi''), (''From'', ''me@gmail.com''), (''To'', ''a@x.com'')]\<rparr>,
         [''a@x.com'']), [])"
  by (simp add: compose_def example_request_def refused_world_def example_world_def
      example_config_def resolve_body_def resolve_attachments_def build_root_def body_part_def
      set_headers_def sender_def all_recipients_def opt_list_def)

lemma lower_Monday: "lower ''Monday'' = ''monday''"
  by code_simp

lemma lower_Someday: "lower ''Someday'' = ''someday''"
  by code_simp

lemma example_registry:
  "registry_after example_accepts example_calls =
     [\<lparr>trigger = DailyAt ''09:30'',
       call = job_request (Str ''a@x.com'') ''Daily'' (Some ''report'') None\<rparr>,
      \<lparr>trigger = WeeklyAt ''monday'' ''10:00'',
       call = job_request (Lst [''a@x.com'', ''b@x.com'']) ''Weekly'' None (Some ''<p>Hi</p>'')\<rparr>]"
  by (simp add: registry_after_def example_calls_def example_accepts_def schedule_daily_def
      schedule_weekly_def register_def lower_Monday lower_Someday)

subsection \<open>Scheduled jobs\<close>

lemma register_jobs:
  assumes "register accepts tg rq jobs = Some js"
  shows "js = jobs @ [\<lparr>trigger = tg, call = rq\<rparr>]"
  using assms by (simp add: register_def split: if_splits)

lemma apply_call_jobs:
  assumes "j \<in> set (apply_call accepts jobs c)"
  shows "j \<in> set jobs \<or> (\<exists>t s b h. call j = job_request t s b h)"
proof (cases c)
  case (ScheduleDaily tm t s b h)
  show ?thesis
  proof (cases "schedule_daily accepts tm t s b h jobs")
    case None
    with assms ScheduleDaily show ?thesis by simp
  next
    case (Some js)
    with register_jobs have "js = jobs @ [\<lparr>trigger = DailyAt tm, call = job_request t s b h\<rparr>]"
      by (simp add: schedule_daily_def)
    with assms ScheduleDaily Some have "j \<in> set jobs \<or> call j = job_request t s b h"
      by auto
    then show ?thesis by blast
  qed
next
  case (ScheduleWeekly d tm t s b h)
  show ?thesis
  proof (cases "schedule_weekly accepts d tm t s b h jobs")
    case None
    with assms ScheduleWeekly show ?thesis by simp
  next
    case (Some js)
    with register_jobs
    have "js = jobs @ [\<lparr>trigger = WeeklyAt (lower d) tm, call = job_request t s b h\<rparr>]"
      by (simp add: schedule_weekly_def)
    with assms ScheduleWeekly Some have "j \<in> set jobs \<or> call j = job_request t s b h"
      by auto
    then show ?thesis by blast
  qed
next
  case (ScheduleInterval n t s b h)
  show ?thesis
  proof (cases "schedule_interval accepts n t s b h jobs")
    case None
    with assms ScheduleInterval show ?thesis by simp
  next
    case (Some js)
    with register_jobs
    have "js = jobs @ [\<lparr>trigger = EveryMinutes n, call = job_request t s b h\<rparr>]"
      by (simp add: schedule_interval_def)
    with assms ScheduleInterval Some have "j \<in> set jobs \<or> call j = job_request t s b h"
      by auto
    then show ?thesis by blast
  qed
qed

lemma foldl_apply_call_jobs:
  "j \<in> set (foldl (apply_call accepts) jobs calls) \<Longrightarrow>
     j \<in> set jobs \<or> (\<exists>t s b h. call j = job_request t s b h)"
proof (induction calls arbitrary: jobs)
  case Nil
  then show ?case by simp
next
  case (Cons c calls)
  then have "j \<in> set (apply_call accepts jobs c) \<or> (\<exists>t s b h. call j = job_request t s b h)"
    by simp
  with apply_call_jobs [of j accepts jobs c] show ?case by blast
qed

lemma body_part_no_attachment: "attachment_count (body_part r b) = 0"
  by (simp add: body_part_def split: option.splits)

lemma compose_no_attachments:
  assumes "attachments r = None" and "compose cfg w r = (Continue (msg, rc), tr)"
  shows "attachment_count (root msg) = 0"
proof -
  from assms(1) have "opt_list (attachments r) = []" by (simp add: opt_list_def)
  with compose_Continue [OF assms(2)] show ?thesis
    by (auto simp: body_part_no_attachment)
qed

lemma send_email_no_attachments:
  assumes "attachments r = None" and "SendMessage m rc \<in> set (snd (send_email cfg w r))"
  shows "attachment_count (root m) = 0"
proof (cases "compose cfg w r")
  case (Pair out tr)
  show ?thesis
  proof (cases out)
    case (Continue x)
    obtain msg rc0 where x: "x = (msg, rc0)" by (cases x)
    from Pair Continue x have c: "compose cfg w r = (Continue (msg, rc0), tr)" by simp
    from send_email_SendMessage [OF c assms(2)] compose_no_attachments [OF assms(1) c]
    show ?thesis by simp
  next
    case (Return b)
    with Pair compose_no_network [of cfg w r] assms(2) have "SendMessage m rc \<in> set tr"
      and "filter is_network tr = []" by (simp_all add: send_email_def)
    then show ?thesis by (auto simp: filter_empty_conv)
  next
    case (Raise e)
    with Pair compose_no_network [of cfg w r] assms(2)
    have "SendMessage m rc \<in> set (tr @ snd (handle r e))"
      and "filter is_network tr = []" by (simp_all add: send_email_def split: prod.splits)
    with handle_no_SendMessage [of m rc r e] show ?thesis by (auto simp: filter_empty_conv)
  qed
qed

lemma first_bad_attachment_log:
  assumes "truthy (body r) \<or> truthy (body_html r)"
    and "opt_list (attachments r) = pre @ p # post"
    and "\<forall>q\<in>set pre. \<exists>d. fs w q = Regular d"
    and "fs w p = Missing \<or> fs w p = NotRegular"
  shows "send_email cfg w r =
           (Returned False,
            [LogError ((if fs w p = Missing then ''Attachment file not found: ''
                        else ''Attachment is not a file: '') @ p)])"
proof -
  from resolve_body_cases [of r] assms(1) obtain b where b: "resolve_body r = (Continue b, [])"
    by auto
  from assms(4) show ?thesis
  proof
    assume m: "fs w p = Missing"
    from validate_first_missing [OF assms(3) m, of post] assms(2)
    have "validate_attachments (fs w) (opt_list (attachments r))
            = (Return False, [LogError (''Attachment file not found: '' @ p)])" by simp
    from send_email_Return [OF compose_bad_attachment [OF b this]] m show ?thesis by simp
  next
    assume n: "fs w p = NotRegular"
    from validate_first_not_regular [OF assms(3) n, of post] assms(2)
    have "validate_attachments (fs w) (opt_list (attachments r))
            = (Return False, [LogError (''Attachment is not a file: '' @ p)])" by simp
    from send_email_Return [OF compose_bad_attachment [OF b this]] n show ?thesis by simp
  qed
qed

lemma bad_attachment_never_sent:
  assumes "p \<in> set (opt_list (attachments r))" and "fs w p = Missing \<or> fs w p = NotRegular"
  shows "fst (send_email cfg w r) = Returned False
       \<and> filter is_network (snd (send_email cfg w r)) = []"
proof -
  from resolve_body_cases [of r] show ?thesis
  proof (elim disjE exE conjE)
    assume "resolve_body r =
       (Raise (ValueError ''Either body (plain text) or body_html must be provided''),
        [LogError ''Either body or body_html must be provided''])"
    then show ?thesis by (simp add: send_email_def compose_def handle_def)
  next
    fix b assume b: "resolve_body r = (Continue b, [])"
    from validate_attachments_cases [of "fs w" "opt_list (attachments r)"] show ?thesis
    proof (elim disjE exE conjE)
      assume "\<forall>p\<in>set (opt_list (attachments r)). \<exists>d. fs w p = Regular d"
      with assms show ?thesis by auto
    next
      fix pre q post
      assume "validate_attachments (fs w) (opt_list (attachments r))
               = (Return False, [LogError (''Attachment file not found: '' @ q)])"
      from send_email_Return [OF compose_bad_attachment [OF b this]] show ?thesis by simp
    next
      fix pre q post
      assume "validate_attachments (fs w) (opt_list (attachments r))
               = (Return False, [LogError (''Attachment is not a file: '' @ q)])"
      from send_email_Return [OF compose_bad_attachment [OF b this]] show ?thesis by simp
    qed
  qed
qed

section \<open>The claims\<close>

text \<open>
  Throughout, an argument is \<^emph>\<open>present\<close> when the source takes it for true (it is
  neither \<^verbatim>\<open>None\<close> nor empty: \<open>truthy\<close>, \<open>truthy_sl\<close>), \<open>opt_list (attachments r)\<close>
  is the list of attachment paths of the request, and a request \<^emph>\<open>is composed\<close> when
  \<open>compose\<close> falls through to the transport with a message and a recipient list.
\<close>

text \<open>
  C1. The structure of a composed message follows the precedence of lines 136-196.
  With \<open>b\<close> the plain body that lines 85-97 settle on, the body node is the single
  plain-text part of \<open>b\<close> when no HTML is present and the alternative part of \<open>b\<close> as
  plain text and then the HTML otherwise. Without attachments the body node is the whole
  message. With attachments the message is a mixed part whose first child is the body
  node and whose further children are the parts made of the attachment paths, one for
  each path and in the order of the paths.
\<close>

theorem message_structure_precedence:
  assumes "compose cfg w r = (Continue (msg, rc), tr)"
  shows "\<exists>b body_node. resolve_body r = (Continue b, [])
      \<and> body_node =
           (case body_html r of
              None \<Rightarrow> MIMEText b ''plain''
            | Some h \<Rightarrow> if h = [] then MIMEText b ''plain''
                        else MIMEMultipart ''alternative''
                               [MIMEText b ''plain'', MIMEText h ''html''])
      \<and> (opt_list (attachments r) = [] \<longrightarrow> root msg = body_node)
      \<and> (opt_list (attachments r) \<noteq> [] \<longrightarrow>
            (\<exists>parts. root msg = MIMEMultipart ''mixed'' (body_node # parts)
               \<and> map (make_attachment w) (opt_list (attachments r)) = map Inr parts))"
proof -
  from compose_Continue [OF assms] obtain b where b: "resolve_body r = (Continue b, [])"
    and s: "if opt_list (attachments r) = [] then root msg = body_part r b
            else (\<exists>parts. map (make_attachment w) (opt_list (attachments r)) = map Inr parts
                    \<and> root msg = MIMEMultipart ''mixed'' (body_part r b # parts))"
    by blast
  show ?thesis
  proof (cases "opt_list (attachments r) = []")
    case True
    with b s show ?thesis by (simp add: body_part_cases)
  next
    case False
    with s obtain parts where
      "map (make_attachment w) (opt_list (attachments r)) = map Inr parts"
      "root msg = MIMEMultipart ''mixed'' (body_part r b # parts)" by auto
    with b False show ?thesis by (simp add: body_part_cases)
  qed
qed

theorem message_structure_precedence_witness:
  "\<exists>msg. compose example_config example_world attachment_request
            = (Continue (msg, [''a@x.com'']), [])
     \<and> opt_list (attachments attachment_request) = [''report.txt'', ''logs.tar.gz'']
     \<and> (\<exists>parts. root msg =
           MIMEMultipart ''mixed''
             (MIMEMultipart ''alternative''
                [MIMEText ''hello'' ''plain'', MIMEText ''<b>hello</b>'' ''html''] # parts)
         \<and> length parts = 2)"
proof -
  have ps: "opt_list (attachments attachment_request) = [''report.txt'', ''logs.tar.gz'']"
    by (simp add: attachment_request_def opt_list_def)
  have bh: "body_html attachment_request = Some ''<b>hello</b>''"
    by (simp add: attachment_request_def)
  have rb: "resolve_body attachment_request = (Continue ''hello'', [])"
    by (simp add: attachment_request_def example_request_def resolve_body_def)
  from message_structure_precedence [OF attachment_request_composed]
  obtain b body_node parts where "resolve_body attachment_request = (Continue b, [])"
    and "body_node =
           (case body_html attachment_request of
              None \<Rightarrow> MIMEText b ''plain''
            | Some h \<Rightarrow> if h = [] then MIMEText b ''plain''
                        else MIMEMultipart ''alternative''
                               [MIMEText b ''plain'', MIMEText h ''html''])"
    and "opt_list (attachments attachment_request) \<noteq> [] \<longrightarrow>
            (\<exists>parts. root \<lparr>root = MIMEMultipart ''mixed''
             [MIMEMultipart ''alternative''
                [MIMEText ''hello'' ''plain'', MIMEText ''<b>hello</b>'' ''html''],
              MIMEBase ''text'' ''plain'' (Base64 [72, 105])
                [(''Content-Transfer-Encoding'', ''base64''),
                 (''Content-Disposition'', ''attachment; filename=report.txt'')],
              MIMEBase ''application'' ''octet-stream'' (Base64 [31, 139])
                [(''Content-Transfer-Encoding'', ''base64''),
                 (''Content-Disposition'', ''attachment; filename=logs.tar.gz'')]],
          headers = [(''Subject'', ''Hi''), (''From'', ''me@gmail.com''), (''To'', ''a@x.com'')]\<rparr>
                = MIMEMultipart ''mixed'' (body_node # parts)
               \<and> map (make_attachment example_world) (opt_list (attachments attachment_request))
                   = map Inr parts)"
    by blast
  with ps bh rb show ?thesis
    by (auto simp: attachment_request_composed)
qed

text \<open>
  C2. For every send request in which both the plain-text body and the HTML body are
  absent (\<^verbatim>\<open>None\<close>, or empty, which line 85 does not tell apart), composition fails:
  line 87 raises the \<^verbatim>\<open>ValueError\<close> that the specification calls MissingBodyError, after
  one error line. The handler of line 234 turns it into the result \<^verbatim>\<open>False\<close>, and the
  trace of the call has no connection, login or transmission in it.
\<close>

theorem missing_body_fails_before_transport:
  assumes "\<not> truthy (body r)" and "\<not> truthy (body_html r)"
  shows "compose cfg w r =
           (Raise (ValueError ''Either body (plain text) or body_html must be provided''),
            [LogError ''Either body or body_html must be provided''])
       \<and> fst (send_email cfg w r) = Returned False
       \<and> filter is_network (snd (send_email cfg w r)) = []"
proof -
  from assms have c: "compose cfg w r =
           (Raise (ValueError ''Either body (plain text) or body_html must be provided''),
            [LogError ''Either body or body_html must be provided''])"
    by (simp add: compose_def resolve_body_def)
  then show ?thesis by (simp add: send_email_def handle_def)
qed

theorem missing_body_fails_before_transport_witness:
  "\<not> truthy (body (example_request\<lparr>body := None\<rparr>))
   \<and> \<not> truthy (body_html (example_request\<lparr>body := None\<rparr>))
   \<and> fst (send_email example_config example_world (example_request\<lparr>body := None\<rparr>))
       = Returned False
   \<and> filter is_network
       (snd (send_email example_config example_world (example_request\<lparr>body := None\<rparr>))) = []"
proof -
  have h1: "\<not> truthy (body (example_request\<lparr>body := None\<rparr>))" by simp
  have h2: "\<not> truthy (body_html (example_request\<lparr>body := None\<rparr>))"
    by (simp add: example_request_def)
  from missing_body_fails_before_transport [OF h1 h2, of example_config example_world] h1 h2
  show ?thesis by simp
qed



text \<open>
  C4, as the claim states it, fails: in a request with the attachments \<^verbatim>\<open>dir\<close> (a
  directory) and \<^verbatim>\<open>missing.txt\<close> (nothing), a path that does not exist is among the
  attachments, and yet the call ends on the directory, with the error line of a path
  that is not a file; the line of the missing file is never written.
\<close>

theorem missing_attachment_counterexample:
  "''missing.txt'' \<in> set (opt_list (attachments bad_attachments_request))
   \<and> fs example_world ''missing.txt'' = Missing
   \<and> send_email example_config example_world bad_attachments_request
       = (Returned False, [LogError ''Attachment is not a file: dir''])
   \<and> LogError ''Attachment file not found: missing.txt''
       \<notin> set (snd (send_email example_config example_world bad_attachments_request))"
  by (simp add: bad_attachments_request_def example_request_def example_world_def opt_list_def
      send_email_def compose_def resolve_body_def resolve_attachments_def)

text \<open>
  C4, amended. For every send request with attachments, an attachment path that does
  not exist or is not a regular file makes the call fail, with the result \<^verbatim>\<open>False\<close>,
  before any network connection is opened. When a body is present, the failure is that
  of the first such path in input order: the error line of a missing file
  (AttachmentNotFoundError) if it does not exist, the error line of a path that is not a
  file (AttachmentNotAFileError) if it exists but is not a regular file; nothing else is
  logged or done.
\<close>

theorem bad_attachment_fails_before_connection:
  assumes "p \<in> set (opt_list (attachments r))"
    and "fs w p = Missing \<or> fs w p = NotRegular"
  shows "fst (send_email cfg w r) = Returned False
       \<and> filter is_network (snd (send_email cfg w r)) = []
       \<and> (\<forall>pre post.
             (truthy (body r) \<or> truthy (body_html r))
             \<and> opt_list (attachments r) = pre @ p # post
             \<and> (\<forall>q\<in>set pre. \<exists>d. fs w q = Regular d) \<longrightarrow>
             send_email cfg w r =
               (Returned False,
                [LogError ((if fs w p = Missing then ''Attachment file not found: ''
                            else ''Attachment is not a file: '') @ p)]))"
proof -
  have "\<forall>pre post.
             (truthy (body r) \<or> truthy (body_html r))
             \<and> opt_list (attachments r) = pre @ p # post
             \<and> (\<forall>q\<in>set pre. \<exists>d. fs w q = Regular d) \<longrightarrow>
             send_email cfg w r =
               (Returned False,
                [LogError ((if fs w p = Missing then ''Attachment file not found: ''
                            else ''Attachment is not a file: '') @ p)])"
    using first_bad_attachment_log [where r = r and w = w and p = p and cfg = cfg] assms(2)
    by blast
  with bad_attachment_never_sent [OF assms, of cfg] show ?thesis by blast
qed

theorem bad_attachment_fails_before_connection_witness:
  "''dir'' \<in> set (opt_list (attachments bad_attachments_request))
   \<and> fs example_world ''dir'' = NotRegular
   \<and> truthy (body bad_attachments_request)
   \<and> opt_list (attachments bad_attachments_request) = [] @ ''dir'' # [''missing.txt'']
   \<and> filter is_network
        (snd (send_email example_config example_world bad_attachments_request)) = []
   \<and> send_email example_config example_world bad_attachments_request
       = (Returned False, [LogError ''Attachment is not a file: dir''])"
proof -
  have h1: "''dir'' \<in> set (opt_list (attachments bad_attachments_request))"
    by (simp add: bad_attachments_request_def opt_list_def)
  have h2: "fs example_world ''dir'' = Missing \<or> fs example_world ''dir'' = NotRegular"
    by (simp add: example_world_def)
  have h3: "truthy (body bad_attachments_request)"
    by (simp add: bad_attachments_request_def example_request_def)
  have h4: "opt_list (attachments bad_attachments_request) = [] @ ''dir'' # [''missing.txt'']"
    by (simp add: bad_attachments_request_def opt_list_def)
  have h5: "\<forall>q\<in>set []. \<exists>d. fs example_world q = Regular d" by simp
  have h6: "fs example_world ''dir'' = NotRegular" by (simp add: example_world_def)
  from bad_attachment_fails_before_connection [OF h1 h2, of example_config]
  have n: "filter is_network
        (snd (send_email example_config example_world bad_attachments_request)) = []"
    and "\<forall>pre post.
             (truthy (body bad_attachments_request) \<or> truthy (body_html bad_attachments_request))
             \<and> opt_list (attachments bad_attachments_request) = pre @ ''dir'' # post
             \<and> (\<forall>q\<in>set pre. \<exists>d. fs example_world q = Regular d) \<longrightarrow>
             send_email example_config example_world bad_attachments_request =
               (Returned False,
                [LogError ((if fs example_world ''dir'' = Missing
                            then ''Attachment file not found: ''
                            else ''Attachment is not a file: '') @ ''dir'')])"
    by blast+
  with h3 h4 h5 have "send_email example_config example_world bad_attachments_request =
               (Returned False,
                [LogError ((if fs example_world ''dir'' = Missing
                            then ''Attachment file not found: ''
                            else ''Attachment is not a file: '') @ ''dir'')])"
    by blast
  then have "send_email example_config example_world bad_attachments_request
       = (Returned False, [LogError ''Attachment is not a file: dir''])"
    by (simp add: h6)
  with h1 h6 h3 h4 n show ?thesis by blast
qed

text \<open>
  C5. For every composed message, the headers that lines 199-204 set are Subject, From
  and To, and Cc after them exactly when cc recipients are present; there is no other
  header, so never a Bcc. Subject is the subject; From is the sender override if one is
  given, else the configured default sender if there is one, else the configured account
  address; To and Cc are the recipient lists joined by a comma and a blank. The
  recipient list handed to the transport is to, then cc, then bcc, and a transmission
  in the trace of the call is of this message to this list.
\<close>

theorem headers_and_recipients:
  assumes "compose cfg w r = (Continue (msg, rc), tr)"
  shows "map_of (headers msg) ''Subject'' = Some (subject r)
       \<and> (\<forall>f. from_address r = Some f \<and> f \<noteq> [] \<longrightarrow> map_of (headers msg) ''From'' = Some f)
       \<and> (\<not> truthy (from_address r) \<and> default_sender cfg \<noteq> [] \<longrightarrow>
            map_of (headers msg) ''From'' = Some (default_sender cfg))
       \<and> (\<not> truthy (from_address r) \<and> default_sender cfg = [] \<longrightarrow>
            map_of (headers msg) ''From'' = Some (gmail_address cfg))
       \<and> map_of (headers msg) ''To'' = Some (join (as_list (to r)))
       \<and> map_of (headers msg) ''Cc'' =
            (if truthy_sl (cc r) then Some (join (opt_list (cc r))) else None)
       \<and> map fst (headers msg) =
            [''Subject'', ''From'', ''To''] @ (if truthy_sl (cc r) then [''Cc''] else [])
       \<and> ''Bcc'' \<notin> fst ` set (headers msg)
       \<and> rc = as_list (to r) @ opt_list (cc r) @ opt_list (bcc r)
       \<and> (\<forall>m' rc'. SendMessage m' rc' \<in> set (snd (send_email cfg w r)) \<longrightarrow>
             m' = msg \<and> rc' = rc)"
proof -
  from compose_Continue [OF assms] have h: "headers msg = set_headers cfg r"
    and rc: "rc = all_recipients r" by blast+
  have 1: "map_of (headers msg) ''Subject'' = Some (subject r)"
    by (simp add: h set_headers_def)
  have 2: "\<forall>f. from_address r = Some f \<and> f \<noteq> [] \<longrightarrow> map_of (headers msg) ''From'' = Some f"
    by (simp add: h set_headers_def sender_def)
  have 3: "\<not> truthy (from_address r) \<and> default_sender cfg \<noteq> [] \<longrightarrow>
            map_of (headers msg) ''From'' = Some (default_sender cfg)"
    by (cases "from_address r") (simp_all add: h set_headers_def sender_def)
  have 4: "\<not> truthy (from_address r) \<and> default_sender cfg = [] \<longrightarrow>
            map_of (headers msg) ''From'' = Some (gmail_address cfg)"
    by (cases "from_address r") (simp_all add: h set_headers_def sender_def)
  have 5: "map_of (headers msg) ''To'' = Some (join (as_list (to r)))"
    by (simp add: h set_headers_def)
  have 6: "map_of (headers msg) ''Cc'' =
            (if truthy_sl (cc r) then Some (join (opt_list (cc r))) else None)"
    by (simp add: h set_headers_def)
  have 7: "map fst (headers msg) =
            [''Subject'', ''From'', ''To''] @ (if truthy_sl (cc r) then [''Cc''] else [])"
    by (simp add: h set_headers_def)
  have "''Bcc'' \<notin> set (map fst (headers msg))"
    unfolding 7 by simp
  then have 8: "''Bcc'' \<notin> fst ` set (headers msg)" by simp
  have 9: "rc = as_list (to r) @ opt_list (cc r) @ opt_list (bcc r)"
    by (simp add: rc all_recipients_eq)
  have 10: "\<forall>m' rc'. SendMessage m' rc' \<in> set (snd (send_email cfg w r)) \<longrightarrow>
             m' = msg \<and> rc' = rc"
    using send_email_SendMessage [OF assms] by blast
  from 1 2 3 4 5 6 7 8 9 10 show ?thesis by blast
qed

theorem headers_and_recipients_witness:
  "(\<exists>msg. compose example_config example_world cc_bcc_request
            = (Continue (msg, [''a@x.com'', ''b@x.com'', ''c@x.com'', ''d@x.com'', ''e@x.com'']), [])
        \<and> map fst (headers msg) = [''Subject'', ''From'', ''To'', ''Cc'']
        \<and> map_of (headers msg) ''From'' = Some ''boss@x.com''
        \<and> map_of (headers msg) ''To'' = Some ''a@x.com, b@x.com''
        \<and> map_of (headers msg) ''Cc'' = Some ''c@x.com''
        \<and> ''Bcc'' \<notin> fst ` set (headers msg))"
proof -
  from headers_and_recipients [OF cc_bcc_request_composed]
  have "map fst (headers \<lparr>root = MIMEText ''hello'' ''plain'',
          headers = [(''Subject'', ''Hi''), (''From'', ''boss@x.com''),
                     (''To'', ''a@x.com, b@x.com''), (''Cc'', ''c@x.com'')]\<rparr>) =
            [''Subject'', ''From'', ''To''] @ (if truthy_sl (cc cc_bcc_request) then [''Cc''] else [])"
    by blast
  then show ?thesis
    by (simp add: cc_bcc_request_composed)
qed

text \<open>
  C6. For every send call that reaches the transport, whatever fails at the connection,
  at the TLS negotiation (when TLS is configured), at the login, at the transmission or
  at the exit of the connection with an exception of a class derived from
  \<^verbatim>\<open>Exception\<close>, the caller gets the boolean \<^verbatim>\<open>False\<close>, and \<^verbatim>\<open>True\<close> when nothing fails:
  no exception leaves the call. Nothing is tried twice: no call on the connection occurs
  twice in the trace. What is transmitted, if anything, is the whole message to the
  whole recipient list, in one call, and a call that returns \<^verbatim>\<open>True\<close> has made it.
\<close>

theorem transport_failures_return_false:
  assumes "compose cfg w r = (Continue (msg, rc), tr)"
    and "caught (on_connect (smtp w) (smtp_server cfg) (smtp_port cfg))"
    and "use_tls cfg \<longrightarrow> caught (on_starttls (smtp w))"
    and "caught (on_login (smtp w) (gmail_address cfg) (gmail_password cfg))"
    and "caught (on_send_message (smtp w) msg rc)"
    and "caught (on_quit (smtp w))"
  shows "fst (send_email cfg w r) =
           Returned (on_connect (smtp w) (smtp_server cfg) (smtp_port cfg) = None
                     \<and> (use_tls cfg \<longrightarrow> on_starttls (smtp w) = None)
                     \<and> on_login (smtp w) (gmail_address cfg) (gmail_password cfg) = None
                     \<and> on_send_message (smtp w) msg rc = None
                     \<and> on_quit (smtp w) = None)
       \<and> distinct (filter is_network (snd (send_email cfg w r)))
       \<and> (\<forall>m' rc'. SendMessage m' rc' \<in> set (snd (send_email cfg w r)) \<longrightarrow>
             m' = msg \<and> rc' = all_recipients r)
       \<and> (fst (send_email cfg w r) = Returned True \<longrightarrow>
             SendMessage msg (all_recipients r) \<in> set (snd (send_email cfg w r)))"
proof -
  let ?ok = "on_connect (smtp w) (smtp_server cfg) (smtp_port cfg) = None
                     \<and> (use_tls cfg \<longrightarrow> on_starttls (smtp w) = None)
                     \<and> on_login (smtp w) (gmail_address cfg) (gmail_password cfg) = None
                     \<and> on_send_message (smtp w) msg rc = None
                     \<and> on_quit (smtp w) = None"
  from compose_Continue [OF assms(1)] have rc: "rc = all_recipients r" by blast
  obtain x tr1 where d: "deliver cfg (smtp w) msg rc = (x, tr1)" by (cases "deliver cfg (smtp w) msg rc")
  from deliver_trace [of cfg "smtp w" msg rc] d
  have t: "filter is_network tr1 = tr1" "distinct tr1" "x = None \<longrightarrow> SendMessage msg rc \<in> set tr1"
    by auto
  have sm: "\<forall>m' rc'. SendMessage m' rc' \<in> set (snd (send_email cfg w r)) \<longrightarrow>
             m' = msg \<and> rc' = all_recipients r"
    using send_email_SendMessage [OF assms(1)] rc by blast
  show ?thesis
  proof (cases x)
    case None
    with d deliver_outcome [of cfg "smtp w" msg rc] have ok: ?ok by simp
    from None d send_email_Continue [OF assms(1)]
    have s: "send_email cfg w r = (Returned True, tr1)" by simp
    from ok have okT: "?ok = True" by blast
    have 1: "fst (send_email cfg w r) = Returned ?ok" by (simp only: s fst_conv okT)
    have 2: "distinct (filter is_network (snd (send_email cfg w r)))"
      using t(1,2) by (simp add: s)
    have 3: "fst (send_email cfg w r) = Returned True \<longrightarrow>
             SendMessage msg (all_recipients r) \<in> set (snd (send_email cfg w r))"
      using t(3) None rc by (simp add: s)
    from 1 2 sm 3 show ?thesis by blast
  next
    case (Some e)
    with d deliver_outcome [of cfg "smtp w" msg rc] have nok: "\<not> ?ok" by simp
    from Some d deliver_raises [of cfg "smtp w" msg rc e] assms(2-6)
    have "is_Exception e" by (auto simp: caught_def)
    from handle_caught [OF this, of r]
    have h: "fst (handle r e) = Returned False" "filter is_network (snd (handle r e)) = []"
      by simp_all
    from Some d send_email_Continue [OF assms(1)]
    have s: "send_email cfg w r = (fst (handle r e), tr1 @ snd (handle r e))" by simp
    from nok have okF: "?ok = False" by blast
    have 1: "fst (send_email cfg w r) = Returned ?ok" by (simp only: s fst_conv h(1) okF)
    have 2: "distinct (filter is_network (snd (send_email cfg w r)))"
      using t(1,2) h(2) by (simp add: s)
    have 3: "fst (send_email cfg w r) = Returned True \<longrightarrow>
             SendMessage msg (all_recipients r) \<in> set (snd (send_email cfg w r))"
      by (simp add: s h(1))
    from 1 2 sm 3 show ?thesis by blast
  qed
qed

theorem transport_failures_return_false_witness:
  "caught (on_connect (smtp refused_world) (smtp_server example_config) (smtp_port example_config))
   \<and> caught (on_starttls (smtp refused_world))
   \<and> on_login (smtp refused_world) (gmail_address example_config) (gmail_password example_config)
       = Some (SMTPException ''535 bad credentials'')
   \<and> caught (on_quit (smtp refused_world))
   \<and> fst (send_email example_config refused_world example_request) = Returned False
   \<and> distinct (filter is_network (snd (send_email example_config refused_world example_request)))"
proof -
  have h1: "caught (on_connect (smtp refused_world) (smtp_server example_config)
                      (smtp_port example_config))"
    by (simp add: caught_def refused_world_def refusing_server_def example_server_def)
  have h2: "caught (on_starttls (smtp refused_world))"
    by (simp add: caught_def refused_world_def refusing_server_def example_server_def)
  have l: "on_login (smtp refused_world) (gmail_address example_config)
             (gmail_password example_config) = Some (SMTPException ''535 bad credentials'')"
    by (simp add: refused_world_def refusing_server_def)
  then have h3: "caught (on_login (smtp refused_world) (gmail_address example_config)
                           (gmail_password example_config))"
    by (simp add: caught_def)
  have h4: "caught (on_send_message (smtp refused_world)
                      \<lparr>root = MIMEText ''hello'' ''plain'',
                        headers = [(''Subject'', ''Hi''), (''From'', ''me@gmail.com''),
                                   (''To'', ''a@x.com'')]\<rparr> [''a@x.com''])"
    by (simp add: caught_def refused_world_def refusing_server_def example_server_def)
  have h5: "caught (on_quit (smtp refused_world))"
    by (simp add: caught_def refused_world_def refusing_server_def example_server_def)
  from h2 have h2': "use_tls example_config \<longrightarrow> caught (on_starttls (smtp refused_world))"
    by simp
  from transport_failures_return_false [OF example_request_refused h1 h2' h3 h4 h5]
  have "fst (send_email example_config refused_world example_request) =
           Returned (on_connect (smtp refused_world) (smtp_server example_config)
                        (smtp_port example_config) = None
                     \<and> (use_tls example_config \<longrightarrow> on_starttls (smtp refused_world) = None)
                     \<and> on_login (smtp refused_world) (gmail_address example_config)
                          (gmail_password example_config) = None
                     \<and> on_send_message (smtp refused_world)
                          \<lparr>root = MIMEText ''hello'' ''plain'',
                            headers = [(''Subject'', ''Hi''), (''From'', ''me@gmail.com''),
                                       (''To'', ''a@x.com'')]\<rparr> [''a@x.com''] = None
                     \<and> on_quit (smtp refused_world) = None)"
    and d: "distinct (filter is_network
                       (snd (send_email example_config refused_world example_request)))"
    by blast+
  then have "fst (send_email example_config refused_world example_request) = Returned False"
    by (simp add: l)
  with h1 h2 l h5 d show ?thesis by blast
qed

text \<open>
  C7. For every attachment of a composed message, the part made of it (the child of the
  mixed part at its place in the list, behind the body node) has as its content type the
  type guessed from the path when there is one and no encoding is guessed with it, and
  \<^verbatim>\<open>application/octet-stream\<close> otherwise; its payload is the base64 encoding of the bytes
  of the file; its transfer encoding is base64; and its disposition is that of an
  attachment with the original file name. The file name is the name of the path
  (line 174): what follows the last slash of a path that ends in a name, the path itself
  when it has no slash, and the name of what precedes a closing slash or a closing
  slash and dot.
\<close>

theorem attachment_part_contents:
  assumes "compose cfg w r = (Continue (msg, rc), tr)"
    and "i < length (opt_list (attachments r))"
  shows "\<exists>body_node parts mt st data file_name.
           root msg = MIMEMultipart ''mixed'' (body_node # parts)
         \<and> length parts = length (opt_list (attachments r))
         \<and> fs w (opt_list (attachments r) ! i) = Regular (Inr data)
         \<and> parts ! i = MIMEBase mt st (Base64 data)
               [(''Content-Transfer-Encoding'', ''base64''),
                (''Content-Disposition'', ''attachment; filename='' @ file_name)]
         \<and> mt @ ''/'' @ st =
               (if fst (guess_type w (opt_list (attachments r) ! i)) = None
                   \<or> snd (guess_type w (opt_list (attachments r) ! i)) \<noteq> None
                then ''application/octet-stream''
                else the (fst (guess_type w (opt_list (attachments r) ! i))))
         \<and> file_name = path_name (opt_list (attachments r) ! i)
         \<and> (\<forall>d n. opt_list (attachments r) ! i = d @ CHR ''/'' # n
                   \<and> CHR ''/'' \<notin> set n \<and> n \<noteq> [] \<and> n \<noteq> ''.'' \<longrightarrow> file_name = n)
         \<and> (CHR ''/'' \<notin> set (opt_list (attachments r) ! i)
              \<and> opt_list (attachments r) ! i \<noteq> [] \<and> opt_list (attachments r) ! i \<noteq> ''.''
              \<longrightarrow> file_name = opt_list (attachments r) ! i)
         \<and> (\<forall>d. opt_list (attachments r) ! i = d @ ''/'' \<or> opt_list (attachments r) ! i = d @ ''/.''
                 \<longrightarrow> file_name = path_name d)"
proof -
  let ?ps = "opt_list (attachments r)"
  from assms(2) have "?ps \<noteq> []" by auto
  with compose_Continue [OF assms(1)] obtain b parts where
    m: "map (make_attachment w) ?ps = map Inr parts"
    and r: "root msg = MIMEMultipart ''mixed'' (body_part r b # parts)"
    by auto
  from m have l: "length parts = length ?ps" by (metis length_map)
  from m assms(2) l have "make_attachment w (?ps ! i) = Inr (parts ! i)"
    by (metis nth_map)
  from make_attachment_Inr [OF this] obtain mt st data where
    f: "fs w (?ps ! i) = Regular (Inr data)"
    and p: "parts ! i = MIMEBase mt st (Base64 data)
                   [(''Content-Transfer-Encoding'', ''base64''),
                    (''Content-Disposition'', ''attachment; filename='' @ path_name (?ps ! i))]"
    and c: "mt @ ''/'' @ st = content_type w (?ps ! i)" by blast
  have n1: "\<forall>d n. ?ps ! i = d @ CHR ''/'' # n
                   \<and> CHR ''/'' \<notin> set n \<and> n \<noteq> [] \<and> n \<noteq> ''.'' \<longrightarrow> path_name (?ps ! i) = n"
    using path_name_basename by simp
  have n2: "CHR ''/'' \<notin> set (?ps ! i) \<and> ?ps ! i \<noteq> [] \<and> ?ps ! i \<noteq> ''.''
              \<longrightarrow> path_name (?ps ! i) = ?ps ! i"
    using path_name_plain by simp
  have n3: "\<forall>d. ?ps ! i = d @ ''/'' \<or> ?ps ! i = d @ ''/.''
                 \<longrightarrow> path_name (?ps ! i) = path_name d"
    using path_name_trailing_slash path_name_trailing_dot by auto
  from r l f p c n1 n2 n3 show ?thesis unfolding content_type_eq by blast
qed

theorem attachment_part_contents_witness:
  "0 < length (opt_list (attachments nested_request))
   \<and> opt_list (attachments nested_request) ! 0 = ''/home/u/docs'' @ CHR ''/'' # ''report.txt''
   \<and> guess_type nested_world ''/home/u/docs/report.txt'' = (Some ''text/plain'', None)
   \<and> opt_list (attachments nested_request) ! 1 = ''backup/2025'' @ CHR ''/'' # ''logs.tar.gz''
   \<and> guess_type nested_world ''backup/2025/logs.tar.gz''
       = (Some ''application/x-tar'', Some ''gzip'')
   \<and> (\<exists>msg rc body_node parts.
         compose example_config nested_world nested_request = (Continue (msg, rc), [])
       \<and> root msg = MIMEMultipart ''mixed'' (body_node # parts)
       \<and> parts ! 0 = MIMEBase ''text'' ''plain'' (Base64 [72, 105])
               [(''Content-Transfer-Encoding'', ''base64''),
                (''Content-Disposition'', ''attachment; filename=report.txt'')]
       \<and> parts ! 1 = MIMEBase ''application'' ''octet-stream'' (Base64 [31, 139])
               [(''Content-Transfer-Encoding'', ''base64''),
                (''Content-Disposition'', ''attachment; filename=logs.tar.gz'')])"
proof -
  let ?msg = "\<lparr>root = MIMEMultipart ''mixed''
             [MIMEText ''hello'' ''plain'',
              MIMEBase ''text'' ''plain'' (Base64 [72, 105])
                [(''Content-Transfer-Encoding'', ''base64''),
                 (''Content-Disposition'', ''attachment; filename=report.txt'')],
              MIMEBase ''application'' ''octet-stream'' (Base64 [31, 139])
                [(''Content-Transfer-Encoding'', ''base64''),
                 (''Content-Disposition'', ''attachment; filename=logs.tar.gz'')]],
          headers = [(''Subject'', ''Hi''), (''From'', ''me@gmail.com''), (''To'', ''a@x.com'')]\<rparr>"
  have ps: "opt_list (attachments nested_request)
              = [''/home/u/docs/report.txt'', ''backup/2025/logs.tar.gz'']"
    by (simp add: nested_request_def opt_list_def)
  then have h0: "0 < length (opt_list (attachments nested_request))"
    and h1: "1 < length (opt_list (attachments nested_request))" by simp_all
  have p0: "opt_list (attachments nested_request) ! 0
              = ''/home/u/docs'' @ CHR ''/'' # ''report.txt''"
    and p1: "opt_list (attachments nested_request) ! 1
              = ''backup/2025'' @ CHR ''/'' # ''logs.tar.gz''"
    by (simp_all add: ps)
  have g0: "guess_type nested_world ''/home/u/docs/report.txt'' = (Some ''text/plain'', None)"
    and g1: "guess_type nested_world ''backup/2025/logs.tar.gz''
              = (Some ''application/x-tar'', Some ''gzip'')"
    by (simp_all add: nested_world_def)
  from attachment_part_contents [OF nested_request_composed h0]
  obtain body_node parts mt st data file_name where
    r: "root ?msg = MIMEMultipart ''mixed'' (body_node # parts)"
    and a: "parts ! 0 = MIMEBase mt st (Base64 data)
               [(''Content-Transfer-Encoding'', ''base64''),
                (''Content-Disposition'', ''attachment; filename='' @ file_name)]"
    and n: "\<forall>d n. opt_list (attachments nested_request) ! 0 = d @ CHR ''/'' # n
                   \<and> CHR ''/'' \<notin> set n \<and> n \<noteq> [] \<and> n \<noteq> ''.'' \<longrightarrow> file_name = n"
    by blast
  from n p0 have "file_name = ''report.txt''" by simp
  with a r have a0: "parts ! 0 = MIMEBase ''text'' ''plain'' (Base64 [72, 105])
               [(''Content-Transfer-Encoding'', ''base64''),
                (''Content-Disposition'', ''attachment; filename=report.txt'')]"
    by auto
  from attachment_part_contents [OF nested_request_composed h1]
  obtain body_node' parts' mt' st' data' file_name' where
    r': "root ?msg = MIMEMultipart ''mixed'' (body_node' # parts')"
    and a': "parts' ! 1 = MIMEBase mt' st' (Base64 data')
               [(''Content-Transfer-Encoding'', ''base64''),
                (''Content-Disposition'', ''attachment; filename='' @ file_name')]"
    and n': "\<forall>d n. opt_list (attachments nested_request) ! 1 = d @ CHR ''/'' # n
                   \<and> CHR ''/'' \<notin> set n \<and> n \<noteq> [] \<and> n \<noteq> ''.'' \<longrightarrow> file_name' = n"
    by blast
  from n' p1 have "file_name' = ''logs.tar.gz''" by simp
  with a' r' have a1: "parts' ! 1 = MIMEBase ''application'' ''octet-stream'' (Base64 [31, 139])
               [(''Content-Transfer-Encoding'', ''base64''),
                (''Content-Disposition'', ''attachment; filename=logs.tar.gz'')]"
    by auto
  from r r' have "parts' = parts" by simp
  with a0 a1 r nested_request_composed
  have "\<exists>msg rc body_node parts.
         compose example_config nested_world nested_request = (Continue (msg, rc), [])
       \<and> root msg = MIMEMultipart ''mixed'' (body_node # parts)
       \<and> parts ! 0 = MIMEBase ''text'' ''plain'' (Base64 [72, 105])
               [(''Content-Transfer-Encoding'', ''base64''),
                (''Content-Disposition'', ''attachment; filename=report.txt'')]
       \<and> parts ! 1 = MIMEBase ''application'' ''octet-stream'' (Base64 [31, 139])
               [(''Content-Transfer-Encoding'', ''base64''),
                (''Content-Disposition'', ''attachment; filename=logs.tar.gz'')]"
    by blast
  with h0 p0 g0 p1 g1 show ?thesis by blast
qed

text \<open>
  C8. Composing a request twice gives the same outcome, with the same parts in the same
  order and the same headers, whatever else differs between the two moments: the
  composition depends on the world only through what the attachment paths of the
  request name and what types are guessed for them, and not on the clock, on the server
  or on any other file.
\<close>

theorem composition_is_repeatable:
  assumes "\<forall>p\<in>set (opt_list (attachments r)).
             fs w1 p = fs w2 p \<and> guess_type w1 p = guess_type w2 p"
  shows "compose cfg w1 r = compose cfg w2 r"
proof -
  let ?ps = "opt_list (attachments r)"
  obtain o0 t0 where rb: "resolve_body r = (o0, t0)" by (cases "resolve_body r")
  obtain o1 t1 where v2: "resolve_attachments w2 r = (o1, t1)"
    by (cases "resolve_attachments w2 r")
  from assms have "validate_attachments (fs w1) ?ps = validate_attachments (fs w2) ?ps"
    by (simp add: validate_attachments_cong)
  with v2 have v1: "resolve_attachments w1 r = (o1, t1)"
    by (simp add: resolve_attachments_eq)
  have b: "build_root w1 r b ?ps = build_root w2 r b ?ps" for b
    using attach_files_cong [OF assms] by (simp add: build_root_def)
  show ?thesis
  proof (cases o0)
    case (Continue body_text)
    show ?thesis
    proof (cases o1)
      case c: (Continue qs)
      with v2 validate_attachments_subset have "qs = ?ps"
        by (simp add: resolve_attachments_eq)
      with c Continue rb v1 v2 b [of body_text] show ?thesis
        by (simp add: compose_def)
    next
      case (Return x)
      with Continue rb v1 v2 show ?thesis by (simp add: compose_def)
    next
      case (Raise e)
      with Continue rb v1 v2 show ?thesis by (simp add: compose_def)
    qed
  next
    case (Return x)
    with rb show ?thesis by (simp add: compose_def)
  next
    case (Raise e)
    with rb show ?thesis by (simp add: compose_def)
  qed
qed

theorem composition_is_repeatable_witness:
  "clock later_world \<noteq> clock example_world
   \<and> fs later_world ''new.txt'' \<noteq> fs example_world ''new.txt''
   \<and> compose example_config example_world attachment_request
       = compose example_config later_world attachment_request"
proof -
  have h: "\<forall>p\<in>set (opt_list (attachments attachment_request)).
             fs example_world p = fs later_world p
             \<and> guess_type example_world p = guess_type later_world p"
    by (simp add: attachment_request_def opt_list_def later_world_def)
  from composition_is_repeatable [OF h, of example_config] show ?thesis
    by (simp add: later_world_def example_world_def)
qed

text \<open>
  C9. At \<^verbatim>\<open>send_email\<close>, an empty plain-text body is treated as an absent one: the call
  does what it does for the same request with the body \<^verbatim>\<open>None\<close>. With an HTML body
  present the plain body is the fallback derived from the HTML; with no HTML body the
  call takes the path of the missing body and returns \<^verbatim>\<open>False\<close>, and nothing is sent.
\<close>

theorem empty_plain_body_is_absent:
  assumes "body r = Some []"
  shows "send_email cfg w r = send_email cfg w (r\<lparr>body := None\<rparr>)
       \<and> (\<forall>h. body_html r = Some h \<and> h \<noteq> [] \<longrightarrow>
             resolve_body r = (Continue (html_fallback h), []))
       \<and> (\<not> truthy (body_html r) \<longrightarrow>
             fst (send_email cfg w r) = Returned False
             \<and> filter is_network (snd (send_email cfg w r)) = [])"
proof -
  from assms have "r = r\<lparr>body := Some []\<rparr>" by simp
  then have 1: "send_email cfg w r = send_email cfg w (r\<lparr>body := None\<rparr>)"
    using send_email_empty_body [of cfg w r] by simp
  from assms have 2: "\<forall>h. body_html r = Some h \<and> h \<noteq> [] \<longrightarrow>
             resolve_body r = (Continue (html_fallback h), [])"
    by (simp add: resolve_body_def)
  from assms have "\<not> truthy (body r)" by simp
  with send_missing_body(2,3) [of r cfg w]
  have 3: "\<not> truthy (body_html r) \<longrightarrow>
             fst (send_email cfg w r) = Returned False
             \<and> filter is_network (snd (send_email cfg w r)) = []"
    by blast
  from 1 2 3 show ?thesis by blast
qed

theorem empty_plain_body_is_absent_witness:
  "body (example_request\<lparr>body := Some []\<rparr>) = Some []
   \<and> \<not> truthy (body_html (example_request\<lparr>body := Some []\<rparr>))
   \<and> fst (send_email example_config example_world (example_request\<lparr>body := Some []\<rparr>))
       = Returned False
   \<and> filter is_network
        (snd (send_email example_config example_world (example_request\<lparr>body := Some []\<rparr>))) = []"
proof -
  have h: "body (example_request\<lparr>body := Some []\<rparr>) = Some []" by simp
  have n: "\<not> truthy (body_html (example_request\<lparr>body := Some []\<rparr>))"
    by (simp add: example_request_def)
  from empty_plain_body_is_absent [OF h, of example_config example_world] h n
  show ?thesis by blast
qed

text \<open>
  C10. Whatever calls of \<^verbatim>\<open>schedule_daily\<close>, \<^verbatim>\<open>schedule_weekly\<close> and
  \<^verbatim>\<open>schedule_interval\<close> a program makes, every job in the registry calls \<^verbatim>\<open>send_email\<close>
  with \<^verbatim>\<open>attachments=None\<close>, and whenever and wherever the job runs, a message it
  transmits has no file part in it.
\<close>

theorem scheduled_emails_carry_no_attachments:
  assumes "j \<in> set (registry_after accepts calls)"
  shows "attachments (call j) = None
       \<and> (\<forall>cfg w m rc. SendMessage m rc \<in> set (snd (run_job cfg w j)) \<longrightarrow>
             attachment_count (root m) = 0)"
proof -
  from assms foldl_apply_call_jobs [of j accepts "[]" calls]
  obtain t s b h where "call j = job_request t s b h"
    by (auto simp: registry_after_def)
  then have a: "attachments (call j) = None" by (simp add: job_request_def)
  with send_email_no_attachments show ?thesis by (simp add: run_job_def)
qed

theorem scheduled_emails_carry_no_attachments_witness:
  "\<lparr>trigger = WeeklyAt ''monday'' ''10:00'',
       call = job_request (Lst [''a@x.com'', ''b@x.com'']) ''Weekly'' None (Some ''<p>Hi</p>'')\<rparr>
      \<in> set (registry_after example_accepts example_calls)
   \<and> attachments (job_request (Lst [''a@x.com'', ''b@x.com'']) ''Weekly'' None (Some ''<p>Hi</p>''))
       = None"
proof -
  have h: "\<lparr>trigger = WeeklyAt ''monday'' ''10:00'',
       call = job_request (Lst [''a@x.com'', ''b@x.com'']) ''Weekly'' None (Some ''<p>Hi</p>'')\<rparr>
      \<in> set (registry_after example_accepts example_calls)"
    by (simp add: example_registry)
  from scheduled_emails_carry_no_attachments [OF h] h show ?thesis by simp
qed

end
